theory Spec2Isabelle
  imports Main "HOL-Library.Sublist"
begin

section \<open>JavaScript strings\<close>

text \<open>
  Strings of the server are modelled as \<^typ>\<open>string\<close>, a character being a code unit
  below 256 (the Latin-1 range, in which Node hands over the bytes of a header). The
  string functions below are the JavaScript ones on such text; characters beyond U+00FF
  are outside the model. Letters are the 26 ASCII letters and the accented letters
  U+00C0 to U+00DE (without the multiplication sign) with their lower-case forms
  U+00E0 to U+00FE (without the division sign); white space is TAB, LF, VT, FF, CR,
  SPACE and the no-break space U+00A0.
\<close>

definition upperLetters :: string where
  "upperLetters = ''ABCDEFGHIJKLMNOPQRSTUVWXYZ'' @ [
      CHR 0xC0, CHR 0xC1, CHR 0xC2, CHR 0xC3, CHR 0xC4, CHR 0xC5, CHR 0xC6, CHR 0xC7,
      CHR 0xC8, CHR 0xC9, CHR 0xCA, CHR 0xCB, CHR 0xCC, CHR 0xCD, CHR 0xCE, CHR 0xCF,
      CHR 0xD0, CHR 0xD1, CHR 0xD2, CHR 0xD3, CHR 0xD4, CHR 0xD5, CHR 0xD6, CHR 0xD8,
      CHR 0xD9, CHR 0xDA, CHR 0xDB, CHR 0xDC, CHR 0xDD, CHR 0xDE]"

definition lowerLetters :: string where
  "lowerLetters = ''abcdefghijklmnopqrstuvwxyz'' @ [
      CHR 0xE0, CHR 0xE1, CHR 0xE2, CHR 0xE3, CHR 0xE4, CHR 0xE5, CHR 0xE6, CHR 0xE7,
      CHR 0xE8, CHR 0xE9, CHR 0xEA, CHR 0xEB, CHR 0xEC, CHR 0xED, CHR 0xEE, CHR 0xEF,
      CHR 0xF0, CHR 0xF1, CHR 0xF2, CHR 0xF3, CHR 0xF4, CHR 0xF5, CHR 0xF6, CHR 0xF8,
      CHR 0xF9, CHR 0xFA, CHR 0xFB, CHR 0xFC, CHR 0xFD, CHR 0xFE]"

definition toLowerChar :: "char \<Rightarrow> char" where
  "toLowerChar c = (case map_of (zip upperLetters lowerLetters) c of Some d \<Rightarrow> d | None \<Rightarrow> c)"

text \<open>
  Upper case: the sharp s (U+00DF) becomes \<open>SS\<close>. The upper-case forms of the micro sign
  (U+00B5) and of y with diaeresis (U+00FF) lie beyond U+00FF; the two characters are
  left as they are, which no comparison with an ASCII word can tell apart.
\<close>

definition toUpperChars :: "char \<Rightarrow> string" where
  "toUpperChars c =
     (if c = CHR 0xDF then ''SS''
      else (case map_of (zip lowerLetters upperLetters) c of Some d \<Rightarrow> [d] | None \<Rightarrow> [c]))"

definition toLowerCase :: "string \<Rightarrow> string" where
  "toLowerCase s = map toLowerChar s"

definition toUpperCase :: "string \<Rightarrow> string" where
  "toUpperCase s = concat (map toUpperChars s)"

definition isSpace :: "char \<Rightarrow> bool" where
  "isSpace c =
     (c \<in> set [CHR 0x09, CHR 0x0A, CHR 0x0B, CHR 0x0C, CHR 0x0D, CHR '' '', CHR 0xA0])"

definition isDigit :: "char \<Rightarrow> bool" where
  "isDigit c = (c \<in> set ''0123456789'')"

definition trim :: "string \<Rightarrow> string" where
  "trim s = rev (dropWhile isSpace (rev (dropWhile isSpace s)))"

definition startsWith :: "string \<Rightarrow> string \<Rightarrow> bool" where
  "startsWith s p = (take (length p) s = p)"

text \<open>\<open>s.includes(p)\<close>: does \<open>p\<close> occur in \<open>s\<close> as a contiguous run?\<close>

fun includesStr :: "string \<Rightarrow> string \<Rightarrow> bool" where
  "includesStr [] p = (p = [])"
| "includesStr (c # cs) p = (startsWith (c # cs) p \<or> includesStr cs p)"

text \<open>\<open>s.indexOf(c)\<close> and \<open>s.lastIndexOf(c)\<close> for a one-character needle; \<open>-1\<close> when absent.\<close>

fun indexOf :: "string \<Rightarrow> char \<Rightarrow> int" where
  "indexOf [] c = -1"
| "indexOf (x # xs) c =
     (if x = c then 0 else (let i = indexOf xs c in if i = -1 then -1 else i + 1))"

fun lastIndexOf :: "string \<Rightarrow> char \<Rightarrow> int" where
  "lastIndexOf [] c = -1"
| "lastIndexOf (x # xs) c =
     (let i = lastIndexOf xs c in
      if i \<noteq> -1 then i + 1 else if x = c then 0 else -1)"

text \<open>\<open>s.slice(b, e)\<close> and \<open>s.slice(b)\<close>, negative positions counting from the end.\<close>

definition clampIndex :: "string \<Rightarrow> int \<Rightarrow> nat" where
  "clampIndex s i =
     (let n = int (length s) in nat (if i < 0 then max (n + i) 0 else min i n))"

definition slice :: "string \<Rightarrow> int \<Rightarrow> int \<Rightarrow> string" where
  "slice s b e = take (clampIndex s e - clampIndex s b) (drop (clampIndex s b) s)"

definition sliceFrom :: "string \<Rightarrow> int \<Rightarrow> string" where
  "sliceFrom s b = drop (clampIndex s b) s"

text \<open>The test \<open>/^\d+$/.test(s)\<close>: a non-empty run of decimal digits.\<close>

definition allDigits :: "string \<Rightarrow> bool" where
  "allDigits s = (s \<noteq> [] \<and> list_all isDigit s)"

text \<open>\<open>s.split(",")[0]\<close>: the text before the first comma (all of \<open>s\<close> without one).\<close>

definition firstCommaField :: "string \<Rightarrow> string" where
  "firstCommaField s = takeWhile (\<lambda>c. c \<noteq> CHR '','') s"

text \<open>
  \<open>s.split(/[sep]+/)\<close> for a character class \<open>sep\<close>: the fields between maximal runs
  of separators, an empty first or last field included.
\<close>

function splitRuns :: "(char \<Rightarrow> bool) \<Rightarrow> string \<Rightarrow> string list" where
  "splitRuns sep s =
     (let tok = takeWhile (\<lambda>c. \<not> sep c) s; rest = dropWhile (\<lambda>c. \<not> sep c) s
      in if rest = [] then [tok] else tok # splitRuns sep (dropWhile sep rest))"
  by pat_completeness auto
termination
proof (relation "measure (\<lambda>(sep, s). length s)")
  show "wf (measure (\<lambda>(sep, s). length s))" by simp
next
  fix sep :: "char \<Rightarrow> bool" and s tok rest :: string
  assume r: "rest = dropWhile (\<lambda>c. \<not> sep c) s" and ne: "rest \<noteq> []"
  from ne obtain x xs where rx: "rest = x # xs" by (cases rest) auto
  have "sep x" using r rx by (metis (mono_tags, lifting) hd_dropWhile list.sel(1) ne)
  then have "length (dropWhile sep rest) \<le> length xs"
    using rx by (simp add: length_dropWhile_le)
  moreover have "length rest \<le> length s"
    using r by (simp add: length_dropWhile_le)
  ultimately have "length (dropWhile sep rest) < length s"
    using rx by simp
  then show "((sep, dropWhile sep rest), (sep, s)) \<in> measure (\<lambda>(sep, s). length s)"
    by simp
qed

declare splitRuns.simps [simp del]

section \<open>JavaScript values in request bodies\<close>

text \<open>
  A parsed JSON body holds values of this type; \<open>JUndefined\<close> is what reading an absent
  property gives. A number is an integer (amounts are sent in minor units). JavaScript
  holds the integers of magnitude up to \<open>2^53\<close> exactly and prints them in plain decimal;
  a number beyond that range is rounded by the parser, and from \<open>10^21\<close> on it is printed
  with an exponent. Such numbers are outside the model, and no property below depends on
  the digits of a number.
\<close>

datatype jsval =
    JUndefined
  | JNull
  | JBool bool
  | JNum int
  | JStr string
  | JArr "jsval list"
  | JObj "(string \<times> jsval) list"

text \<open>Truthiness, as used by \<open>!x\<close> and \<open>x || y\<close>.\<close>

fun truthy :: "jsval \<Rightarrow> bool" where
  "truthy JUndefined = False"
| "truthy JNull = False"
| "truthy (JBool b) = b"
| "truthy (JNum n) = (n \<noteq> 0)"
| "truthy (JStr s) = (s \<noteq> [])"
| "truthy (JArr xs) = True"
| "truthy (JObj ps) = True"

definition jsOr :: "jsval \<Rightarrow> jsval \<Rightarrow> jsval" where
  "jsOr a b = (if truthy a then a else b)"

text \<open>\<open>a ?? b\<close>: only \<open>null\<close> and \<open>undefined\<close> give way to \<open>b\<close>.\<close>

definition nullish :: "jsval \<Rightarrow> bool" where
  "nullish v = (v = JUndefined \<or> v = JNull)"

definition jsCoalesce :: "jsval \<Rightarrow> jsval \<Rightarrow> jsval" where
  "jsCoalesce a b = (if nullish a then b else a)"

section \<open>Requests\<close>

text \<open>
  A request as Express hands it to the middleware chain: header names are in lower case
  (Node stores them so), \<open>path\<close> holds the segments of the URL path, \<open>ip\<close> is Express's
  \<open>req.ip\<close> and \<open>remoteAddress\<close> the address of the socket (\<open>None\<close> where JavaScript has
  \<open>undefined\<close>). The body is given by what \<open>express.json()\<close> makes of it: \<open>jsonError\<close> is
  the status with which the parser refuses the body (400 for malformed JSON, 413 for a
  body that is too large, 415 for an unsupported encoding), \<open>None\<close> when it does not
  refuse it, and \<open>body\<close> holds the properties of the object it then leaves in \<open>req.body\<close>.
\<close>

record request =
  reqMethod :: string
  path :: "string list"
  headers :: "string \<rightharpoonup> string"
  ip :: "string option"
  remoteAddress :: "string option"
  jsonError :: "nat option"
  body :: "string \<rightharpoonup> jsval"

text \<open>\<open>req.header(name)\<close> looks the lower-cased name up.\<close>

definition header :: "request \<Rightarrow> string \<Rightarrow> string option" where
  "header req name = headers req (toLowerCase name)"

text \<open>\<open>a || b\<close> on values that are a string or \<open>undefined\<close>.\<close>

definition strOr :: "string option \<Rightarrow> string option \<Rightarrow> string option" where
  "strOr a b = (case a of Some (c # cs) \<Rightarrow> a | _ \<Rightarrow> b)"

definition strTruthy :: "string option \<Rightarrow> bool" where
  "strTruthy a = (case a of Some (c # cs) \<Rightarrow> True | _ \<Rightarrow> False)"

definition strOrElse :: "string option \<Rightarrow> string \<Rightarrow> string" where
  "strOrElse a d = (case a of Some (c # cs) \<Rightarrow> c # cs | _ \<Rightarrow> d)"

definition bodyProp :: "request \<Rightarrow> string \<Rightarrow> jsval" where
  "bodyProp req k = (case body req k of None \<Rightarrow> JUndefined | Some v \<Rightarrow> v)"

section \<open>Client IP extractor\<close>

text \<open>
  \<open>getClientIp\<close> of the source. \<open>isIP\<close> is Node's \<open>net.isIP\<close> (0 for a string that is not
  an IP address, 4 or 6 otherwise); it is a parameter of the model.
\<close>

definition stripBrackets :: "string \<Rightarrow> string" where
  "stripBrackets t =
     (if startsWith t ''['' \<and> includesStr t '']'' then slice t 1 (indexOf t CHR '']'') else t)"

definition stripPort :: "string \<Rightarrow> string" where
  "stripPort t =
     (let lastColon = lastIndexOf t CHR '':'' in
      if lastColon \<noteq> -1 \<and> allDigits (sliceFrom t (lastColon + 1))
      then slice t 0 lastColon else t)"

definition stripMapped :: "string \<Rightarrow> string" where
  "stripMapped t = (if startsWith t ''::ffff:'' then sliceFrom t 7 else t)"

definition cleanToken :: "request \<Rightarrow> string" where
  "cleanToken req =
     (let hdr = strOrElse (strOr (headers req ''x-forwarded-for'') (ip req)) [];
          token = trim (firstCommaField hdr)
      in stripMapped (stripPort (stripBrackets token)))"

definition cleanRemote :: "request \<Rightarrow> string" where
  "cleanRemote req =
     (let ra = strOrElse (remoteAddress req) [];
          ra1 = (if startsWith ra ''[''
                 then (let endIdx = indexOf ra CHR '']'' in if endIdx \<noteq> -1 then slice ra 1 endIdx else ra)
                 else ra)
      in stripMapped (stripPort ra1))"

definition getClientIp :: "(string \<Rightarrow> nat) \<Rightarrow> request \<Rightarrow> string" where
  "getClientIp isIP req =
     (let token = cleanToken req in
      if isIP token = 0 \<and> isIP (cleanRemote req) \<noteq> 0 then cleanRemote req
      else if token \<noteq> [] then token else ''unknown'')"

section \<open>Rendering values as text\<close>

text \<open>Decimal rendering of a number.\<close>

definition digitChar :: "nat \<Rightarrow> char" where
  "digitChar d = ''0123456789'' ! d"

function showNat :: "nat \<Rightarrow> string" where
  "showNat n = (if n < 10 then [digitChar n] else showNat (n div 10) @ [digitChar (n mod 10)])"
  by pat_completeness auto
termination
  by (relation "measure (\<lambda>n. n)") auto

declare showNat.simps [simp del]

definition showInt :: "int \<Rightarrow> string" where
  "showInt i = (if i < 0 then CHR ''-'' # showNat (nat (- i)) else showNat (nat i))"

text \<open>
  \<open>Array.prototype.join\<close> with the default separator, over elements whose conversion
  may have thrown (\<open>None\<close>).
\<close>

fun joinComma :: "string option list \<Rightarrow> string option" where
  "joinComma [] = Some []"
| "joinComma [x] = x"
| "joinComma (x # y # ys) =
     (case x of None \<Rightarrow> None
      | Some a \<Rightarrow> (case joinComma (y # ys) of None \<Rightarrow> None | Some b \<Rightarrow> Some (a @ CHR '','' # b)))"

text \<open>
  The conversion to a string done by \<open>String(v)\<close> and by a template literal. An object
  parsed from JSON converts through \<open>Object.prototype.toString\<close>, unless it has a property
  of its own named \<open>toString\<close>: that property is not a function, and the conversion
  throws a \<open>TypeError\<close> (\<open>None\<close>). An array joins its elements, \<open>null\<close> and \<open>undefined\<close>
  elements giving the empty string.
\<close>

fun toStringJS :: "jsval \<Rightarrow> string option" where
  "toStringJS JUndefined = Some ''undefined''"
| "toStringJS JNull = Some ''null''"
| "toStringJS (JBool b) = Some (if b then ''true'' else ''false'')"
| "toStringJS (JNum n) = Some (showInt n)"
| "toStringJS (JStr s) = Some s"
| "toStringJS (JArr xs) =
     joinComma (map (\<lambda>v. if v = JUndefined \<or> v = JNull then Some [] else toStringJS v) xs)"
| "toStringJS (JObj ps) =
     (if ''toString'' \<in> fst ` set ps then None else Some ''[object Object]'')"

text \<open>The messages of the two \<open>TypeError\<close>s, in the wording of the engine.\<close>

definition cannotConvert :: string where
  "cannotConvert = ''Cannot convert object to primitive value''"

definition notAFunction :: string where
  "notAFunction = ''(category || \"POS\").toString is not a function''"

definition cannotRead :: string where
  "cannotRead = ''Cannot read properties of undefined (reading 'toString')''"

text \<open>
  Fallible steps return \<open>Inl m\<close> for a thrown error with message \<open>m\<close> and \<open>Inr v\<close> for
  a value.
\<close>

definition templateString :: "jsval \<Rightarrow> string + string" where
  "templateString v = (case toStringJS v of None \<Rightarrow> Inl cannotConvert | Some s \<Rightarrow> Inr s)"

text \<open>The method call \<open>v.toString()\<close>.\<close>

definition callToString :: "jsval \<Rightarrow> string + string" where
  "callToString v =
     (case v of
        JUndefined \<Rightarrow> Inl cannotRead
      | JNull \<Rightarrow> Inl cannotRead
      | JObj ps \<Rightarrow> (if ''toString'' \<in> fst ` set ps then Inl notAFunction
                    else Inr ''[object Object]'')
      | _ \<Rightarrow> templateString v)"

section \<open>Configuration\<close>

text \<open>
  The environment variables the server reads, each with its text (\<open>None\<close> when unset).
  \<open>RATE_LIMIT_PER_MINUTE\<close> holds the natural number that \<open>Number(...)\<close> makes of the
  variable (\<open>None\<close> when it is unset or empty, where the source takes 60).
\<close>

record environment =
  STRIPE_ENV :: "string option"
  STRIPE_LOCATION_ID_PROD :: "string option"
  STRIPE_LOCATION_ID_TEST :: "string option"
  STRIPE_TERMINAL_ID_PROD :: "string option"
  POS_BACKEND_KEY :: "string option"
  POS_BACKEND_KEYS :: "string option"
  RATE_LIMIT_PER_MINUTE :: "nat option"
  STRIPE_SIMULATE_CARD :: "string option"
  STRIPE_SIMULATE_CARD_NUMBER :: "string option"

definition ENV :: "environment \<Rightarrow> string" where
  "ENV env = strOrElse (STRIPE_ENV env) ''test''"

definition STRIPE_LOCATION_ID :: "environment \<Rightarrow> string option" where
  "STRIPE_LOCATION_ID env =
     (if ENV env = ''prod'' then STRIPE_LOCATION_ID_PROD env else STRIPE_LOCATION_ID_TEST env)"

definition STRIPE_TERMINAL_ID :: "environment \<Rightarrow> string option" where
  "STRIPE_TERMINAL_ID env = (if ENV env = ''prod'' then STRIPE_TERMINAL_ID_PROD env else None)"

definition SINGLE_API_KEY :: "environment \<Rightarrow> string" where
  "SINGLE_API_KEY env = trim (strOrElse (POS_BACKEND_KEY env) [])"

definition keySeparator :: "char \<Rightarrow> bool" where
  "keySeparator c = (c = CHR 0x0A \<or> c = CHR '','' \<or> isSpace c)"

text \<open>The elements of the set \<open>MULTI_KEYS\<close>.\<close>

definition MULTI_KEYS :: "environment \<Rightarrow> string list" where
  "MULTI_KEYS env =
     filter (\<lambda>s. s \<noteq> []) (map trim (splitRuns keySeparator (strOrElse (POS_BACKEND_KEYS env) [])))"

definition rateLimit :: "environment \<Rightarrow> nat" where
  "rateLimit env = (case RATE_LIMIT_PER_MINUTE env of None \<Rightarrow> 60 | Some n \<Rightarrow> n)"

section \<open>Responses\<close>

text \<open>
  A response is its status code and its JSON body (\<open>res.json\<close> without \<open>res.status\<close>
  answers with 200). Response headers are not part of the model.
\<close>

record response =
  status :: nat
  json :: jsval

definition errorResponse :: "nat \<Rightarrow> string \<Rightarrow> response" where
  "errorResponse code msg = \<lparr>status = code, json = JObj [(''error'', JStr msg)]\<rparr>"

definition okResponse :: "jsval \<Rightarrow> response" where
  "okResponse v = \<lparr>status = 200, json = v\<rparr>"

section \<open>The middleware mounted first\<close>

text \<open>A middleware returns \<open>Some\<close> response when it answers, \<open>None\<close> when it calls \<open>next()\<close>.\<close>

text \<open>
  \<open>cors()\<close> of the package cors with its default options (the package is not among the
  sources): a request whose method is \<open>OPTIONS\<close> is a preflight and is answered at once
  with 204 and an empty body; any other request is passed on.
\<close>

definition cors :: "request \<Rightarrow> response option" where
  "cors req =
     (if toUpperCase (reqMethod req) = ''OPTIONS''
      then Some \<lparr>status = 204, json = JUndefined\<rparr> else None)"

text \<open>
  \<open>express.json()\<close> (not among the sources either): a body it refuses raises an error that
  skips the rest of the chain, and Express answers with the status of the error and no
  JSON body; otherwise the request is passed on with its parsed body.
\<close>

definition expressJson :: "request \<Rightarrow> response option" where
  "expressJson req =
     (case jsonError req of
        Some code \<Rightarrow> Some \<lparr>status = code, json = JUndefined\<rparr>
      | None \<Rightarrow> None)"

section \<open>API key verification\<close>

definition hasValidKey :: "environment \<Rightarrow> string option \<Rightarrow> bool" where
  "hasValidKey env v =
     (case v of
        None \<Rightarrow> False
      | Some s \<Rightarrow>
          if s = [] then False
          else if SINGLE_API_KEY env \<noteq> [] \<and> s = SINGLE_API_KEY env then True
          else if MULTI_KEYS env \<noteq> [] \<and> s \<in> set (MULTI_KEYS env) then True
          else False)"

definition presentedKey :: "request \<Rightarrow> string option" where
  "presentedKey req = strOr (header req ''x-api-key'') (header req ''x-device-key'')"

definition authMiddleware :: "environment \<Rightarrow> request \<Rightarrow> response option" where
  "authMiddleware env req =
     (if SINGLE_API_KEY env = [] \<and> MULTI_KEYS env = []
      then Some (errorResponse 500
             ''Server not configured: missing POS_BACKEND_KEY or POS_BACKEND_KEYS'')
      else if \<not> hasValidKey env (presentedKey req)
      then Some (errorResponse 401 ''Unauthorized'')
      else None)"

section \<open>Rate limiting\<close>

text \<open>
  The state of the limiter: for each key the number of requests counted in its current
  window and the time (in milliseconds) at which that window ends.
\<close>

type_synonym limiterStore = "string \<rightharpoonup> nat \<times> nat"

text \<open>
  Modelled from the spec: the counting done by the store of the package
  express-rate-limit, which is not among the sources. The spec has a process-wide mapping
  from client identity to a request count within the current window, reset per window:
  a request of a key with an open window is counted in it, any other request opens a
  window of \<open>windowMs\<close> milliseconds with the count 1.
\<close>

definition increment :: "nat \<Rightarrow> nat \<Rightarrow> string \<Rightarrow> limiterStore \<Rightarrow> nat \<times> limiterStore" where
  "increment windowMs now key store =
     (case store key of
        Some (hits, resetTime) \<Rightarrow>
          if now < resetTime then (hits + 1, store(key \<mapsto> (hits + 1, resetTime)))
          else (1, store(key \<mapsto> (1, now + windowMs)))
      | None \<Rightarrow> (1, store(key \<mapsto> (1, now + windowMs))))"

text \<open>
  Modelled from the spec: the answer of express-rate-limit to a request beyond the limit,
  the 429 signal with the package's standard message.
\<close>

definition tooManyRequests :: response where
  "tooManyRequests = \<lparr>status = 429, json = JStr ''Too many requests, please try again later.''\<rparr>"

text \<open>
  Modelled from the spec: the middleware that \<open>rateLimit(...)\<close> returns, with the options
  of the source (a window of \<open>60 * 1000\<close> milliseconds, the configured limit, the key
  given by \<open>getClientIp\<close>). At most \<open>limit\<close> requests per key and window pass; a request
  beyond the limit is answered with 429 and not forwarded.
\<close>

definition limiter ::
  "environment \<Rightarrow> (string \<Rightarrow> nat) \<Rightarrow> nat \<Rightarrow> request \<Rightarrow> limiterStore \<Rightarrow> response option \<times> limiterStore" where
  "limiter env isIP now req store =
     (let (totalHits, store') = increment (60 * 1000) now (getClientIp isIP req) store
      in (if totalHits > rateLimit env then Some tooManyRequests else None, store'))"

section \<open>Idempotency header\<close>

definition idempotencyMiddleware :: "request \<Rightarrow> response option" where
  "idempotencyMiddleware req =
     (if toUpperCase (reqMethod req) = ''POST''
      then (if \<not> strTruthy (header req ''Idempotency-Key'')
            then Some (errorResponse 400 ''Missing Idempotency-Key header'')
            else None)
      else None)"

definition deviceKey :: "request \<Rightarrow> string option" where
  "deviceKey req = strOr (strOr (header req ''x-api-key'') (header req ''x-device-key'')) None"

section \<open>The payment processor\<close>

text \<open>
  The Stripe client is a parameter: each operation takes the processor's state \<open>'p\<close> and
  returns the new state with either the message of the error it threw (\<open>Inl\<close>) or its
  result (\<open>Inr\<close>). Every call the server makes is recorded, in order, as a
  \<open>stripe_call\<close>.
\<close>

record pi_create_params =
  pc_amount :: jsval
  pc_currency :: jsval
  pc_description :: jsval
  pc_statement_descriptor_suffix :: string
  pc_payment_method_types :: "string list"
  pc_capture_method :: string
  pc_metadata :: "(string \<times> string) list"

record payment_intent =
  pi_id :: string
  pi_status :: string

record reader_params =
  registration_code :: string
  label :: string
  location :: "string option"

record payment_error =
  pe_code :: "string option"
  pe_decline_code :: "string option"
  pe_message :: "string option"
  pe_type :: "string option"

record charge_outcome =
  co_type :: "string option"
  co_seller_message :: "string option"

record charge =
  ch_status :: "string option"
  ch_failure_message :: "string option"
  ch_failure_code :: "string option"
  ch_outcome :: "charge_outcome option"

record intent =
  in_id :: string
  in_status :: string
  last_payment_error :: "payment_error option"
  latest_charge :: "charge option"

datatype stripe_call =
    PaymentIntentsCreate pi_create_params
  | ConnectionTokensCreate
  | ReadersCreate reader_params
  | ReadersProcessPaymentIntent string jsval string
  | ReadersPresentPaymentMethod string string
  | PaymentIntentsRetrieve string "string list"

record 'p stripe =
  paymentIntents_create :: "pi_create_params \<Rightarrow> 'p \<Rightarrow> (string + payment_intent) \<times> 'p"
  connectionTokens_create :: "'p \<Rightarrow> (string + string) \<times> 'p"
  readers_create :: "reader_params \<Rightarrow> 'p \<Rightarrow> (string + string) \<times> 'p"
  readers_processPaymentIntent :: "string \<Rightarrow> jsval \<Rightarrow> string \<Rightarrow> 'p \<Rightarrow> (string + jsval) \<times> 'p"
  readers_presentPaymentMethod :: "string \<Rightarrow> string \<Rightarrow> 'p \<Rightarrow> (string + unit) \<times> 'p"
  paymentIntents_retrieve :: "string \<Rightarrow> string list \<Rightarrow> 'p \<Rightarrow> (string + intent) \<times> 'p"

text \<open>What a route handler leaves behind: the response, the processor calls, the processor.\<close>

type_synonym 'p handled = "response \<times> stripe_call list \<times> 'p"

section \<open>POST /api/payments\<close>

definition statementSuffix :: "string \<Rightarrow> string" where
  "statementSuffix rawSuffix =
     (let suffix =
        (if includesStr rawSuffix ''concession'' then ''OHP CONCESSIONS''
         else if includesStr rawSuffix ''merch'' then ''OHP MERCH''
         else if includesStr rawSuffix ''art'' then ''OHP ART''
         else ''OHP POS'')
      in slice suffix 0 22)"

definition computedDescription :: "jsval \<Rightarrow> jsval \<Rightarrow> string + jsval" where
  "computedDescription description category =
     (if truthy description then Inr description
      else (case templateString (jsCoalesce category (JStr ''Unspecified'')) of
              Inl m \<Rightarrow> Inl m
            | Inr s \<Rightarrow> Inr (JStr (''OHP POS - '' @ s))))"

definition paymentMetadata :: "jsval \<Rightarrow> string option \<Rightarrow> string + (string \<times> string) list" where
  "paymentMetadata art_number dk =
     (if \<not> nullish art_number
      then (case templateString art_number of
              Inl m \<Rightarrow> Inl m
            | Inr s \<Rightarrow> Inr [(''art_number'', s), (''device_key'', strOrElse dk ''unknown'')])
      else Inr [(''device_key'', strOrElse dk ''unknown'')])"

definition createPayment :: "'p stripe \<Rightarrow> request \<Rightarrow> 'p \<Rightarrow> 'p handled" where
  "createPayment stripe req p =
     (let amount = bodyProp req ''amount'';
          currency = bodyProp req ''currency'';
          category = bodyProp req ''category'';
          description = bodyProp req ''description'';
          art_number = bodyProp req ''art_number''
      in
      if \<not> truthy amount \<or> \<not> truthy currency
      then (errorResponse 400 ''Amount and currency are required.'', [], p)
      else
        (case computedDescription description category of
           Inl m \<Rightarrow> (errorResponse 500 m, [], p)
         | Inr computed \<Rightarrow>
        (case callToString (jsOr category (JStr ''POS'')) of
           Inl m \<Rightarrow> (errorResponse 500 m, [], p)
         | Inr rendered \<Rightarrow>
        (case paymentMetadata art_number (deviceKey req) of
           Inl m \<Rightarrow> (errorResponse 500 m, [], p)
         | Inr meta \<Rightarrow>
           (let params = \<lparr>pc_amount = amount, pc_currency = currency,
                          pc_description = computed,
                          pc_statement_descriptor_suffix = statementSuffix (toLowerCase rendered),
                          pc_payment_method_types = [''card_present''],
                          pc_capture_method = ''automatic'', pc_metadata = meta\<rparr>
            in (case paymentIntents_create stripe params p of
                  (Inl m, p') \<Rightarrow> (errorResponse 500 m, [PaymentIntentsCreate params], p')
                | (Inr paymentIntent, p') \<Rightarrow>
                    (okResponse (JObj [(''id'', JStr (pi_id paymentIntent)),
                                       (''status'', JStr (pi_status paymentIntent))]),
                     [PaymentIntentsCreate params], p')))))))"

section \<open>POST /api/terminal/connection_token\<close>

definition connectionToken :: "'p stripe \<Rightarrow> request \<Rightarrow> 'p \<Rightarrow> 'p handled" where
  "connectionToken stripe req p =
     (case connectionTokens_create stripe p of
        (Inl m, p') \<Rightarrow> (errorResponse 500 m, [ConnectionTokensCreate], p')
      | (Inr secret, p') \<Rightarrow> (okResponse (JObj [(''secret'', JStr secret)]), [ConnectionTokensCreate], p'))"

section \<open>POST /api/terminal/charge\<close>

text \<open>
  The part of the handler after the reader is known: process the intent on the reader,
  in test mode present the simulated card if asked to (a failure there is only logged),
  and answer with the processor's result. \<open>made\<close> holds the calls made so far.
\<close>

definition processOnReader ::
  "environment \<Rightarrow> 'p stripe \<Rightarrow> string \<Rightarrow> jsval \<Rightarrow> stripe_call list \<Rightarrow> 'p \<Rightarrow> 'p handled" where
  "processOnReader env stripe readerId payment_intent_id made p =
     (case templateString payment_intent_id of
        Inl m \<Rightarrow> (errorResponse 500 m, made, p)
      | Inr idText \<Rightarrow>
          (let idempotencyKey = ''pi-process-'' @ idText;
               call = ReadersProcessPaymentIntent readerId payment_intent_id idempotencyKey
           in (case readers_processPaymentIntent stripe readerId payment_intent_id idempotencyKey p of
                 (Inl m, p') \<Rightarrow> (errorResponse 500 m, made @ [call], p')
               | (Inr processed, p') \<Rightarrow>
                   (if ENV env \<noteq> ''prod'' \<and> STRIPE_SIMULATE_CARD env = Some ''true''
                    then (let testCard = strOrElse (STRIPE_SIMULATE_CARD_NUMBER env) ''4242424242424242''
                          in (case readers_presentPaymentMethod stripe readerId testCard p' of
                                (r, p'') \<Rightarrow>
                                  (okResponse (JObj [(''reader'', processed)]),
                                   made @ [call, ReadersPresentPaymentMethod readerId testCard], p'')))
                    else (okResponse (JObj [(''reader'', processed)]), made @ [call], p')))))"

definition terminalCharge :: "environment \<Rightarrow> 'p stripe \<Rightarrow> request \<Rightarrow> 'p \<Rightarrow> 'p handled" where
  "terminalCharge env stripe req p =
     (let payment_intent_id = bodyProp req ''payment_intent_id'' in
      if ENV env = ''prod''
      then (if \<not> strTruthy (STRIPE_TERMINAL_ID env)
            then (errorResponse 400 ''Missing STRIPE_TERMINAL_ID_PROD for production mode'', [], p)
            else processOnReader env stripe (strOrElse (STRIPE_TERMINAL_ID env) []) payment_intent_id [] p)
      else
        (let params = \<lparr>registration_code = ''simulated-wpe'', label = ''Simulated POS'',
                       location = STRIPE_LOCATION_ID env\<rparr>
         in (case readers_create stripe params p of
               (Inl m, p') \<Rightarrow> (errorResponse 500 m, [ReadersCreate params], p')
             | (Inr readerId, p') \<Rightarrow>
                 processOnReader env stripe readerId payment_intent_id [ReadersCreate params] p')))"

section \<open>GET /api/payment_intents/:id\<close>

text \<open>\<open>x || null\<close> and \<open>x ?? null\<close> on a value that is a string or \<open>undefined\<close>.\<close>

definition orNull :: "string option \<Rightarrow> jsval" where
  "orNull a = (case a of Some (c # cs) \<Rightarrow> JStr (c # cs) | _ \<Rightarrow> JNull)"

definition coalesceNull :: "string option \<Rightarrow> jsval" where
  "coalesceNull a = (case a of Some s \<Rightarrow> JStr s | None \<Rightarrow> JNull)"

definition lastErr :: "intent \<Rightarrow> jsval" where
  "lastErr i =
     (case last_payment_error i of
        None \<Rightarrow> JNull
      | Some e \<Rightarrow> JObj [(''code'', orNull (pe_code e)),
                        (''decline_code'', orNull (pe_decline_code e)),
                        (''message'', orNull (pe_message e)),
                        (''type'', orNull (pe_type e))])"

definition chargeStatus :: "intent \<Rightarrow> string option" where
  "chargeStatus i = (case latest_charge i of None \<Rightarrow> None | Some lc \<Rightarrow> ch_status lc)"

definition effectiveStatus :: "intent \<Rightarrow> string" where
  "effectiveStatus i =
     (if in_status i = ''succeeded'' \<or> chargeStatus i = Some ''succeeded''
      then ''succeeded'' else in_status i)"

definition intentSummary :: "intent \<Rightarrow> jsval" where
  "intentSummary i =
     (let lc = latest_charge i;
          chargeFailureMessage = orNull (case lc of None \<Rightarrow> None | Some c \<Rightarrow> ch_failure_message c);
          chargeFailureCode = orNull (case lc of None \<Rightarrow> None | Some c \<Rightarrow> ch_failure_code c);
          outcome = (case lc of None \<Rightarrow> None | Some c \<Rightarrow> ch_outcome c);
          outcomeType = orNull (case outcome of None \<Rightarrow> None | Some oc \<Rightarrow> co_type oc);
          outcomeSellerMessage =
            orNull (case outcome of None \<Rightarrow> None | Some oc \<Rightarrow> co_seller_message oc)
      in JObj [(''id'', JStr (in_id i)),
               (''status'', JStr (in_status i)),
               (''effective_status'', JStr (effectiveStatus i)),
               (''last_payment_error'', lastErr i),
               (''latest_charge_status'', coalesceNull (chargeStatus i)),
               (''latest_charge_failure_message'', chargeFailureMessage),
               (''latest_charge_failure_code'', chargeFailureCode),
               (''latest_charge_outcome_type'', outcomeType),
               (''latest_charge_outcome_seller_message'', outcomeSellerMessage)])"

definition getPaymentIntent :: "'p stripe \<Rightarrow> string \<Rightarrow> 'p \<Rightarrow> 'p handled" where
  "getPaymentIntent stripe ident p =
     (case paymentIntents_retrieve stripe ident [''latest_charge''] p of
        (Inl m, p') \<Rightarrow> (errorResponse 500 m, [PaymentIntentsRetrieve ident [''latest_charge'']], p')
      | (Inr i, p') \<Rightarrow>
          (okResponse (intentSummary i), [PaymentIntentsRetrieve ident [''latest_charge'']], p'))"

section \<open>GET /health\<close>

definition health :: "environment \<Rightarrow> response" where
  "health env =
     okResponse (JObj [(''ok'', JBool True),
                       (''message'', JStr (''Backend reachable ('' @ ENV env @ '')''))])"

section \<open>Routing and the middleware chain\<close>

text \<open>
  Express matches paths without regard to case and serves \<open>HEAD\<close> from a \<open>GET\<close> route.
  A request that no route takes gets the framework's own 404 answer.
\<close>

definition routeMethod :: "request \<Rightarrow> string" where
  "routeMethod req = (let m = toLowerCase (reqMethod req) in if m = ''head'' then ''get'' else m)"

definition underApi :: "request \<Rightarrow> bool" where
  "underApi req = (case path req of [] \<Rightarrow> False | seg # rest \<Rightarrow> toLowerCase seg = ''api'')"

definition notFound :: response where
  "notFound = \<lparr>status = 404, json = JUndefined\<rparr>"

definition routes :: "environment \<Rightarrow> 'p stripe \<Rightarrow> request \<Rightarrow> 'p \<Rightarrow> 'p handled" where
  "routes env stripe req p =
     (let m = routeMethod req; segs = map toLowerCase (path req) in
      if m = ''post'' \<and> segs = [''api'', ''payments''] then createPayment stripe req p
      else if m = ''post'' \<and> segs = [''api'', ''terminal'', ''connection_token'']
        then connectionToken stripe req p
      else if m = ''post'' \<and> segs = [''api'', ''terminal'', ''charge'']
        then terminalCharge env stripe req p
      else if m = ''get'' \<and> length segs = 3 \<and> take 2 segs = [''api'', ''payment_intents'']
        then getPaymentIntent stripe (path req ! 2) p
      else if m = ''get'' \<and> segs = [''health''] then (health env, [], p)
      else (notFound, [], p))"

text \<open>
  The application, in the order in which the source mounts its middleware: \<open>cors()\<close> and
  \<open>express.json()\<close> see every request; for a path under \<open>/api\<close> the key check, the rate
  limiter and the idempotency check then run in this order before the routes. \<open>now\<close> is
  the time of the request in milliseconds. The state is the limiter's store and the
  processor. The two middlewares that set the \<open>Cache-Control\<close> header and log the request
  always pass the request on, and the one that stores the presented key on the request is
  \<open>deviceKey\<close>.
\<close>

definition app ::
  "environment \<Rightarrow> (string \<Rightarrow> nat) \<Rightarrow> 'p stripe \<Rightarrow> nat \<Rightarrow> request \<Rightarrow> limiterStore \<times> 'p
     \<Rightarrow> (response \<times> stripe_call list) \<times> (limiterStore \<times> 'p)" where
  "app env isIP stripe now req st =
     (let store = fst st; p = snd st in
      case cors req of
        Some res \<Rightarrow> ((res, []), (store, p))
      | None \<Rightarrow>
     (case expressJson req of
        Some res \<Rightarrow> ((res, []), (store, p))
      | None \<Rightarrow>
      if underApi req
      then (case authMiddleware env req of
              Some res \<Rightarrow> ((res, []), (store, p))
            | None \<Rightarrow>
                (case limiter env isIP now req store of
                   (Some res, store') \<Rightarrow> ((res, []), (store', p))
                 | (None, store') \<Rightarrow>
                     (case idempotencyMiddleware req of
                        Some res \<Rightarrow> ((res, []), (store', p))
                      | None \<Rightarrow>
                          (case routes env stripe req p of
                             (res, cs, p') \<Rightarrow> ((res, cs), (store', p'))))))
      else (case routes env stripe req p of (res, cs, p') \<Rightarrow> ((res, cs), (store, p')))))"

text \<open>The server handling a sequence of timed requests, one after the other.\<close>

fun serve ::
  "environment \<Rightarrow> (string \<Rightarrow> nat) \<Rightarrow> 'p stripe \<Rightarrow> (nat \<times> request) list \<Rightarrow> limiterStore \<times> 'p
     \<Rightarrow> (response \<times> stripe_call list) list" where
  "serve env isIP stripe [] st = []"
| "serve env isIP stripe ((now, req) # rest) st =
     (case app env isIP stripe now req st of
        (out, st') \<Rightarrow> out # serve env isIP stripe rest st')"

section \<open>Notions used to state the properties\<close>

text \<open>\<open>s\<close> contains \<open>pat\<close> up to the case of letters: some contiguous part of \<open>s\<close> spells \<open>pat\<close>.\<close>

definition containsCI :: "string \<Rightarrow> string \<Rightarrow> bool" where
  "containsCI s pat = (\<exists>u. sublist u s \<and> toLowerCase u = toLowerCase pat)"

text \<open>The suffix a category text should get, by the first keyword it contains.\<close>

definition suffixByKeyword :: "string \<Rightarrow> string" where
  "suffixByKeyword c =
     (if containsCI c ''concession'' then ''OHP CONCESSIONS''
      else if containsCI c ''merch'' then ''OHP MERCH''
      else if containsCI c ''art'' then ''OHP ART''
      else ''OHP POS'')"

text \<open>
  The text of the category of a request: the category converted to a string, with \<open>POS\<close>
  in place of a missing or falsy category; \<open>None\<close> when the conversion throws.
\<close>

definition categoryText :: "request \<Rightarrow> string option" where
  "categoryText req = toStringJS (jsOr (bodyProp req ''category'') (JStr ''POS''))"

text \<open>
  The cleaning of an address as the specification words it, written with list functions
  instead of the source's index arithmetic: what stands between \<open>[\<close> and the first \<open>]\<close> of
  a bracketed address; the text before the last colon when what follows that colon is a
  non-empty run of digits; the text after the prefix \<open>::ffff:\<close>.
\<close>

definition betweenBrackets :: "string \<Rightarrow> string" where
  "betweenBrackets t =
     (case t of
        [] \<Rightarrow> []
      | c # rest \<Rightarrow>
          if c = CHR ''['' \<and> CHR '']'' \<in> set rest
          then takeWhile (\<lambda>x. x \<noteq> CHR '']'') rest else t)"

definition withoutPort :: "string \<Rightarrow> string" where
  "withoutPort t =
     (let port = rev (takeWhile (\<lambda>x. x \<noteq> CHR '':'') (rev t)) in
      if CHR '':'' \<in> set t \<and> port \<noteq> [] \<and> list_all isDigit port
      then rev (tl (dropWhile (\<lambda>x. x \<noteq> CHR '':'') (rev t))) else t)"

definition withoutMappedPrefix :: "string \<Rightarrow> string" where
  "withoutMappedPrefix t = (if prefix ''::ffff:'' t then drop 7 t else t)"

definition cleaned :: "string \<Rightarrow> string" where
  "cleaned t = withoutMappedPrefix (withoutPort (betweenBrackets t))"

text \<open>
  The cleaned token of a request: of the first comma-separated field, trimmed, of the
  forwarding header, or of \<open>req.ip\<close> when that header is missing or empty. The cleaned
  socket address: of the address of the socket.
\<close>

definition cleanedToken :: "request \<Rightarrow> string" where
  "cleanedToken req =
     cleaned (trim (takeWhile (\<lambda>x. x \<noteq> CHR '','')
       (case headers req ''x-forwarded-for'' of
          Some (c # cs) \<Rightarrow> c # cs
        | _ \<Rightarrow> (case ip req of Some (c # cs) \<Rightarrow> c # cs | _ \<Rightarrow> []))))"

definition cleanedSocket :: "request \<Rightarrow> string" where
  "cleanedSocket req = cleaned (case remoteAddress req of Some a \<Rightarrow> a | None \<Rightarrow> [])"

text \<open>
  A request reaches the rate limiter when its path is under \<open>/api\<close>, it is no preflight,
  its body is not refused and the key check passes it on; it is counted for the client
  \<open>k\<close> when it reaches the limiter with the client identity \<open>k\<close>.
\<close>

definition reachesLimiter :: "environment \<Rightarrow> request \<Rightarrow> bool" where
  "reachesLimiter env req =
     (underApi req \<and> toUpperCase (reqMethod req) \<noteq> ''OPTIONS'' \<and> jsonError req = None
      \<and> authMiddleware env req = None)"

definition countedFor :: "environment \<Rightarrow> (string \<Rightarrow> nat) \<Rightarrow> string \<Rightarrow> nat \<times> request \<Rightarrow> bool" where
  "countedFor env isIP k tr = (reachesLimiter env (snd tr) \<and> getClientIp isIP (snd tr) = k)"

text \<open>The number of requests counted for \<open>k\<close> among the first \<open>i\<close> of a sequence.\<close>

definition countedBefore ::
  "environment \<Rightarrow> (string \<Rightarrow> nat) \<Rightarrow> string \<Rightarrow> (nat \<times> request) list \<Rightarrow> nat \<Rightarrow> nat" where
  "countedBefore env isIP k reqs i = length (filter (countedFor env isIP k) (take i reqs))"

text \<open>A property of a JSON object (\<open>undefined\<close> when absent or when the value is no object).\<close>

definition jsField :: "jsval \<Rightarrow> string \<Rightarrow> jsval" where
  "jsField v k =
     (case v of JObj ps \<Rightarrow> (case map_of ps k of Some x \<Rightarrow> x | None \<Rightarrow> JUndefined)
      | _ \<Rightarrow> JUndefined)"

text \<open>The statement-descriptor suffixes sent to the processor by a list of calls.\<close>

fun sentSuffixes :: "stripe_call list \<Rightarrow> string list" where
  "sentSuffixes [] = []"
| "sentSuffixes (PaymentIntentsCreate ps # cs) = pc_statement_descriptor_suffix ps # sentSuffixes cs"
| "sentSuffixes (c # cs) = sentSuffixes cs"

text \<open>Whether a call provisions a reader or processes an intent on one.\<close>

fun readerCall :: "stripe_call \<Rightarrow> bool" where
  "readerCall (ReadersCreate ps) = True"
| "readerCall (ReadersProcessPaymentIntent r i k) = True"
| "readerCall c = False"

section \<open>Sample configurations and requests\<close>

text \<open>
  A processor that counts the calls it receives and answers each with a fixed result; the
  retrieved intent is still processing while its latest charge has succeeded.
\<close>

definition laggingIntent :: intent where
  "laggingIntent =
     \<lparr>in_id = ''pi_1'', in_status = ''processing'', last_payment_error = None,
      latest_charge = Some \<lparr>ch_status = Some ''succeeded'', ch_failure_message = None,
                            ch_failure_code = None, ch_outcome = None\<rparr>\<rparr>"

definition countingStripe :: "nat stripe" where
  "countingStripe =
     \<lparr>paymentIntents_create =
        (\<lambda>ps n. (Inr \<lparr>pi_id = ''pi_1'', pi_status = ''requires_payment_method''\<rparr>, Suc n)),
      connectionTokens_create = (\<lambda>n. (Inr ''pst_test_1'', Suc n)),
      readers_create = (\<lambda>ps n. (Inr ''tmr_1'', Suc n)),
      readers_processPaymentIntent = (\<lambda>r i k n. (Inr (JObj [(''id'', JStr r)]), Suc n)),
      readers_presentPaymentMethod = (\<lambda>r c n. (Inr (), Suc n)),
      paymentIntents_retrieve = (\<lambda>i ex n. (Inr laggingIntent, Suc n))\<rparr>"

text \<open>Node's \<open>net.isIP\<close> on the strings that occur in the samples.\<close>

definition sampleIsIP :: "string \<Rightarrow> nat" where
  "sampleIsIP s = (if s = ''203.0.113.7'' \<or> s = ''10.0.0.1'' then 4 else 0)"

definition unconfigured :: environment where
  "unconfigured =
     \<lparr>STRIPE_ENV = None, STRIPE_LOCATION_ID_PROD = None, STRIPE_LOCATION_ID_TEST = None,
      STRIPE_TERMINAL_ID_PROD = None, POS_BACKEND_KEY = None, POS_BACKEND_KEYS = None,
      RATE_LIMIT_PER_MINUTE = None, STRIPE_SIMULATE_CARD = None,
      STRIPE_SIMULATE_CARD_NUMBER = None\<rparr>"

definition testEnv :: environment where
  "testEnv = unconfigured\<lparr>POS_BACKEND_KEY := Some ''s3cret'', RATE_LIMIT_PER_MINUTE := Some 2\<rparr>"

definition prodEnv :: environment where
  "prodEnv = unconfigured\<lparr>STRIPE_ENV := Some ''prod'', POS_BACKEND_KEYS := Some ''k1, k2''\<rparr>"

definition bareRequest :: request where
  "bareRequest =
     \<lparr>reqMethod = ''POST'', path = [''api'', ''payments''], headers = Map.empty, ip = None,
      remoteAddress = None, jsonError = None, body = Map.empty\<rparr>"

definition keyedRequest :: request where
  "keyedRequest =
     bareRequest\<lparr>headers := [''x-api-key'' \<mapsto> ''s3cret'', ''x-forwarded-for'' \<mapsto> ''203.0.113.7:54321, 10.0.0.1'']\<rparr>"

definition paymentRequest :: "jsval \<Rightarrow> request" where
  "paymentRequest category =
     keyedRequest\<lparr>headers := (headers keyedRequest)(''idempotency-key'' \<mapsto> ''a1''),
                  body := [''amount'' \<mapsto> JNum 500, ''currency'' \<mapsto> JStr ''usd'',
                           ''category'' \<mapsto> category]\<rparr>"

definition garbageRequest :: request where
  "garbageRequest = bareRequest\<lparr>headers := [''x-forwarded-for'' \<mapsto> ''garbage'']\<rparr>"

text \<open>A server that has counted no request yet, with the counting processor at 0.\<close>

definition freshServer :: "limiterStore \<times> nat" where
  "freshServer = (Map.empty, 0)"

definition wrongKeyRequest :: request where
  "wrongKeyRequest = bareRequest\<lparr>headers := [''x-api-key'' \<mapsto> ''guess'']\<rparr>"

definition zeroAmountRequest :: request where
  "zeroAmountRequest =
     keyedRequest\<lparr>body := [''amount'' \<mapsto> JNum 0, ''currency'' \<mapsto> JStr ''usd'']\<rparr>"

definition preflightRequest :: request where
  "preflightRequest = keyedRequest\<lparr>reqMethod := ''OPTIONS''\<rparr>"

definition otherClientRequest :: request where
  "otherClientRequest =
     bareRequest\<lparr>headers := [''x-api-key'' \<mapsto> ''s3cret'', ''x-forwarded-for'' \<mapsto> ''10.0.0.1'']\<rparr>"

definition objectArtRequest :: request where
  "objectArtRequest =
     keyedRequest\<lparr>body := [''amount'' \<mapsto> JNum 500, ''currency'' \<mapsto> JStr ''usd'',
                           ''art_number'' \<mapsto> JObj [(''toString'', JNum 1)]]\<rparr>"

definition noCategoryRequest :: request where
  "noCategoryRequest =
     keyedRequest\<lparr>body := [''amount'' \<mapsto> JNum 500, ''currency'' \<mapsto> JStr ''usd'']\<rparr>"

text \<open>
  Traffic of two clients: three requests of the first that pass the key check, one of the
  second, one without a key and one preflight in between.
\<close>

definition sampleTraffic :: "(nat \<times> request) list" where
  "sampleTraffic =
     [(1000, keyedRequest), (1200, otherClientRequest), (1500, keyedRequest),
      (1700, bareRequest), (1800, preflightRequest), (60999, keyedRequest)]"

definition chargeRequest :: request where
  "chargeRequest =
     \<lparr>reqMethod = ''POST'', path = [''api'', ''terminal'', ''charge''],
      headers = [''x-device-key'' \<mapsto> ''k2'', ''idempotency-key'' \<mapsto> ''b2''],
      ip = Some ''10.0.0.1'', remoteAddress = Some ''10.0.0.1'', jsonError = None,
      body = [''payment_intent_id'' \<mapsto> JStr ''pi_1'']\<rparr>"

section \<open>Facts about the string functions\<close>

lemma startsWith_prefix: "startsWith s p \<longleftrightarrow> prefix p s"
proof
  assume "startsWith s p"
  then have "p = take (length p) s" by (simp add: startsWith_def)
  then show "prefix p s" using take_is_prefix[of "length p" s] by simp
next
  assume "prefix p s"
  then show "startsWith s p" by (auto simp: prefix_def startsWith_def)
qed

lemma includesStr_sublist: "includesStr s p \<longleftrightarrow> sublist p s"
  by (induction s) (auto simp: startsWith_prefix sublist_Cons_right)

lemma includesStr_single: "includesStr s [c] \<longleftrightarrow> c \<in> set s"
  by (induction s) (auto simp: startsWith_def)

lemma sublist_map_iff: "sublist q (map f s) \<longleftrightarrow> (\<exists>u. sublist u s \<and> map f u = q)"
proof
  assume "sublist q (map f s)"
  then obtain ps ss where m: "map f s = ps @ q @ ss" by (auto simp: sublist_def)
  define b where "b = take (length q) (drop (length ps) s)"
  have "map f b = take (length q) (drop (length ps) (map f s))"
    by (simp add: b_def take_map drop_map)
  then have "map f b = q" by (simp add: m)
  moreover have "s = take (length ps) s @ b @ drop (length q) (drop (length ps) s)"
    unfolding b_def by (metis append_take_drop_id)
  then have "sublist b s" unfolding sublist_def by blast
  ultimately show "\<exists>u. sublist u s \<and> map f u = q" by blast
next
  assume "\<exists>u. sublist u s \<and> map f u = q"
  then show "sublist q (map f s)" using map_mono_sublist by blast
qed

lemma containsCI_includes: "containsCI s pat \<longleftrightarrow> includesStr (toLowerCase s) (toLowerCase pat)"
  unfolding containsCI_def includesStr_sublist toLowerCase_def by (simp add: sublist_map_iff)

lemmas lower_simps = toLowerCase_def toLowerChar_def upperLetters_def lowerLetters_def

lemma lower_keywords:
  "toLowerCase ''concession'' = ''concession''" "toLowerCase ''merch'' = ''merch''"
  "toLowerCase ''art'' = ''art''"
  by (simp_all add: lower_simps)

lemma lower_idempotency_key: "toLowerCase ''Idempotency-Key'' = ''idempotency-key''"
  by (simp add: lower_simps)

lemma indexOf_absent: "c \<notin> set s \<Longrightarrow> indexOf s c = -1"
  by (induction s) auto

lemma indexOf_present: "c \<in> set s \<Longrightarrow> indexOf s c = int (length (takeWhile (\<lambda>x. x \<noteq> c) s))"
  by (induction s) (auto simp: Let_def)

lemma lastIndexOf_absent: "c \<notin> set s \<Longrightarrow> lastIndexOf s c = -1"
  by (induction s) (auto simp: Let_def)

lemma lastIndexOf_last: "c \<notin> set ys \<Longrightarrow> lastIndexOf (xs @ c # ys) c = int (length xs)"
  by (induction xs) (auto simp: Let_def lastIndexOf_absent)

section \<open>The source's cleaning is the cleaning of the specification\<close>

lemma slice_brackets:
  assumes "CHR '']'' \<in> set rest"
  shows "slice (CHR ''['' # rest) 1 (indexOf (CHR ''['' # rest) CHR '']'')
           = takeWhile (\<lambda>x. x \<noteq> CHR '']'') rest"
proof -
  let ?n = "length (takeWhile (\<lambda>x. x \<noteq> CHR '']'') rest)"
  have i: "indexOf (CHR ''['' # rest) CHR '']'' = int ?n + 1"
    using assms by (simp add: indexOf_present Let_def)
  have n: "?n \<le> length rest" by (rule length_takeWhile_le)
  have "slice (CHR ''['' # rest) 1 (int ?n + 1) = take ?n rest"
    using n by (simp add: slice_def clampIndex_def Let_def min_def nat_add_distrib)
  also have "\<dots> = takeWhile (\<lambda>x. x \<noteq> CHR '']'') rest"
    by (rule takeWhile_eq_take [symmetric])
  finally show ?thesis using i by simp
qed

lemma stripBrackets_spec: "stripBrackets t = betweenBrackets t"
proof (cases t)
  case Nil
  then show ?thesis by (simp add: stripBrackets_def betweenBrackets_def startsWith_def)
next
  case (Cons c rest)
  show ?thesis
  proof (cases "c = CHR ''['' \<and> CHR '']'' \<in> set rest")
    case True
    then show ?thesis
      using Cons slice_brackets[of rest]
      by (simp add: stripBrackets_def betweenBrackets_def startsWith_def includesStr_single)
  next
    case False
    then show ?thesis
      using Cons
      by (auto simp: stripBrackets_def betweenBrackets_def startsWith_def includesStr_single)
  qed
qed

lemma remoteBrackets_spec:
  "(if startsWith ra ''[''
    then (let endIdx = indexOf ra CHR '']'' in if endIdx \<noteq> -1 then slice ra 1 endIdx else ra)
    else ra) = betweenBrackets ra"
proof (cases ra)
  case Nil
  then show ?thesis by (simp add: betweenBrackets_def startsWith_def)
next
  case (Cons c rest)
  show ?thesis
  proof (cases "c = CHR ''['' \<and> CHR '']'' \<in> set rest")
    case True
    then have "indexOf ra CHR '']'' \<noteq> -1"
      using Cons by (simp add: indexOf_present Let_def)
    then show ?thesis
      using True Cons slice_brackets[of rest]
      by (simp add: betweenBrackets_def startsWith_def Let_def)
  next
    case False
    then show ?thesis
      using Cons
      by (auto simp: betweenBrackets_def startsWith_def Let_def indexOf_absent)
  qed
qed

lemma stripPort_spec: "stripPort t = withoutPort t"
proof (cases "CHR '':'' \<in> set t")
  case False
  then show ?thesis by (simp add: stripPort_def withoutPort_def lastIndexOf_absent Let_def)
next
  case True
  then obtain xs ys where t: "t = xs @ CHR '':'' # ys" and ys: "CHR '':'' \<notin> set ys"
    using split_list_last[of "CHR '':''" t] by blast
  have l: "lastIndexOf t CHR '':'' = int (length xs)"
    using t ys by (simp add: lastIndexOf_last)
  have a: "sliceFrom t (int (length xs) + 1) = ys"
    using t by (simp add: sliceFrom_def clampIndex_def Let_def min_def nat_add_distrib)
  have b: "slice t 0 (int (length xs)) = xs"
    using t by (simp add: slice_def clampIndex_def Let_def min_def)
  have ne: "\<And>x. x \<in> set (rev ys) \<Longrightarrow> x \<noteq> CHR '':''" using ys by auto
  have r: "rev t = rev ys @ CHR '':'' # rev xs" using t by simp
  have tw: "takeWhile (\<lambda>x. x \<noteq> CHR '':'') (rev t) = rev ys"
    unfolding r using takeWhile_append2[of "rev ys" "\<lambda>x. x \<noteq> CHR '':''" "CHR '':'' # rev xs"] ne
    by simp
  have dw: "dropWhile (\<lambda>x. x \<noteq> CHR '':'') (rev t) = CHR '':'' # rev xs"
    unfolding r using dropWhile_append2[of "rev ys" "\<lambda>x. x \<noteq> CHR '':''" "CHR '':'' # rev xs"] ne
    by simp
  show ?thesis
    using True l a b tw dw
    by (simp add: stripPort_def withoutPort_def Let_def allDigits_def)
qed

lemma stripMapped_spec: "stripMapped t = withoutMappedPrefix t"
proof (cases "prefix ''::ffff:'' t")
  case True
  then have "7 \<le> length t" using prefix_length_le by fastforce
  then have "sliceFrom t 7 = drop 7 t"
    by (simp add: sliceFrom_def clampIndex_def Let_def min_def)
  then show ?thesis using True
    by (simp add: stripMapped_def withoutMappedPrefix_def startsWith_prefix)
next
  case False
  then show ?thesis by (simp add: stripMapped_def withoutMappedPrefix_def startsWith_prefix)
qed

lemma cleanToken_spec: "cleanToken req = cleanedToken req"
proof -
  have "strOrElse (strOr (headers req ''x-forwarded-for'') (ip req)) [] =
        (case headers req ''x-forwarded-for'' of
           Some (c # cs) \<Rightarrow> c # cs
         | _ \<Rightarrow> (case ip req of Some (c # cs) \<Rightarrow> c # cs | _ \<Rightarrow> []))"
    by (simp add: strOrElse_def strOr_def split: option.splits list.splits)
  then show ?thesis
    by (simp add: cleanToken_def cleanedToken_def cleaned_def firstCommaField_def Let_def
        stripBrackets_spec stripPort_spec stripMapped_spec)
qed

lemma cleanRemote_spec: "cleanRemote req = cleanedSocket req"
proof -
  have "strOrElse (remoteAddress req) [] = (case remoteAddress req of Some a \<Rightarrow> a | None \<Rightarrow> [])"
    by (simp add: strOrElse_def split: option.splits list.splits)
  then show ?thesis
    by (simp add: cleanRemote_def cleanedSocket_def cleaned_def Let_def
        remoteBrackets_spec stripPort_spec stripMapped_spec)
qed

section \<open>Statement-descriptor suffix\<close>

lemma statementSuffix_byKeyword: "statementSuffix (toLowerCase c) = suffixByKeyword c"
  by (simp add: statementSuffix_def suffixByKeyword_def containsCI_includes lower_keywords
      slice_def clampIndex_def)

lemma suffixByKeyword_length: "length (suffixByKeyword c) \<le> 22"
  by (simp add: suffixByKeyword_def)

lemma suffixByKeyword_POS: "suffixByKeyword ''POS'' = ''OHP POS''"
  by (simp add: suffixByKeyword_def containsCI_includes lower_keywords lower_simps startsWith_def)

lemma suffixByKeyword_Nil: "suffixByKeyword [] = ''OHP POS''"
  by (simp add: suffixByKeyword_def containsCI_includes lower_keywords toLowerCase_def)

section \<open>Facts about the handlers\<close>

lemma terminalCharge_unconfigured:
  assumes "STRIPE_ENV env = Some ''prod''"
    and "STRIPE_TERMINAL_ID_PROD env = None \<or> STRIPE_TERMINAL_ID_PROD env = Some []"
  shows "terminalCharge env stripe req p =
           (errorResponse 400 ''Missing STRIPE_TERMINAL_ID_PROD for production mode'', [], p)"
  using assms
  by (auto simp: terminalCharge_def ENV_def STRIPE_TERMINAL_ID_def strOrElse_def strTruthy_def)

lemma createPayment_calls:
  "c \<in> set (fst (snd (createPayment stripe req p))) \<Longrightarrow> \<not> readerCall c"
  by (auto simp: createPayment_def Let_def split: sum.splits prod.splits if_splits)

lemma connectionToken_calls:
  "c \<in> set (fst (snd (connectionToken stripe req p))) \<Longrightarrow> \<not> readerCall c"
  by (auto simp: connectionToken_def split: sum.splits prod.splits)

lemma getPaymentIntent_calls:
  "c \<in> set (fst (snd (getPaymentIntent stripe i p))) \<Longrightarrow> \<not> readerCall c"
  by (auto simp: getPaymentIntent_def split: sum.splits prod.splits)

lemma routes_calls:
  assumes "terminalCharge env stripe req p = (r, [], p)"
  shows "c \<in> set (fst (snd (routes env stripe req p))) \<Longrightarrow> \<not> readerCall c"
  using assms createPayment_calls[of c stripe req p] connectionToken_calls[of c stripe req p]
    getPaymentIntent_calls[of c stripe "path req ! 2" p]
  by (auto simp: routes_def Let_def split: if_splits)

lemma app_calls_routes:
  "snd (fst (app env isIP stripe now req st)) = [] \<or>
   snd (fst (app env isIP stripe now req st)) = fst (snd (routes env stripe req (snd st)))"
  by (auto simp: app_def Let_def split: option.splits prod.splits)

lemma createPayment_status: "status (fst (createPayment stripe req p)) \<noteq> 429"
  by (auto simp: createPayment_def Let_def errorResponse_def okResponse_def
      split: sum.splits prod.splits)

lemma connectionToken_status: "status (fst (connectionToken stripe req p)) \<noteq> 429"
  by (auto simp: connectionToken_def errorResponse_def okResponse_def split: sum.splits prod.splits)

lemma processOnReader_status: "status (fst (processOnReader env stripe r i made p)) \<noteq> 429"
  by (auto simp: processOnReader_def Let_def errorResponse_def okResponse_def
      split: sum.splits prod.splits)

lemma terminalCharge_status: "status (fst (terminalCharge env stripe req p)) \<noteq> 429"
  by (auto simp: terminalCharge_def Let_def errorResponse_def processOnReader_status
      split: sum.splits prod.splits)

lemma getPaymentIntent_status: "status (fst (getPaymentIntent stripe i p)) \<noteq> 429"
  by (auto simp: getPaymentIntent_def errorResponse_def okResponse_def split: sum.splits prod.splits)

lemma routes_status: "status (fst (routes env stripe req p)) \<noteq> 429"
  by (simp add: routes_def Let_def createPayment_status connectionToken_status
      terminalCharge_status getPaymentIntent_status health_def okResponse_def notFound_def)

lemma idempotency_status: "idempotencyMiddleware req = Some res \<Longrightarrow> status res \<noteq> 429"
  by (auto simp: idempotencyMiddleware_def errorResponse_def split: if_splits)

section \<open>Facts about the middleware chain\<close>

text \<open>A request that passes \<open>cors()\<close> and \<open>express.json()\<close> and lies under \<open>/api\<close>.\<close>

lemma app_under_api:
  assumes "underApi req" and "toUpperCase (reqMethod req) \<noteq> ''OPTIONS''" and "jsonError req = None"
  shows "app env isIP stripe now req st =
     (case authMiddleware env req of
        Some res \<Rightarrow> ((res, []), st)
      | None \<Rightarrow>
          (case limiter env isIP now req (fst st) of
             (Some res, store') \<Rightarrow> ((res, []), (store', snd st))
           | (None, store') \<Rightarrow>
               (case idempotencyMiddleware req of
                  Some res \<Rightarrow> ((res, []), (store', snd st))
                | None \<Rightarrow>
                    (case routes env stripe req (snd st) of
                       (res, cs, p') \<Rightarrow> ((res, cs), (store', p'))))))"
  using assms by (simp add: app_def Let_def cors_def expressJson_def split: option.splits)

text \<open>A request that the chain answers before the key check.\<close>

lemma app_answered_early:
  assumes "toUpperCase (reqMethod req) = ''OPTIONS'' \<or> jsonError req \<noteq> None"
  shows "snd (fst (app env isIP stripe now req st)) = [] \<and> snd (app env isIP stripe now req st) = st"
  using assms by (auto simp: app_def Let_def cors_def expressJson_def split: option.splits)

section \<open>Facts about the rate limiter\<close>

text \<open>A request counted for \<open>k\<close> inside an open window of \<open>k\<close>.\<close>

lemma app_in_window:
  assumes "reachesLimiter env req" "getClientIp isIP req = k"
    and "fst st k = Some (h, reset)" "now < reset"
  shows "fst (snd (app env isIP stripe now req st)) k = Some (h + 1, reset)
     \<and> (rateLimit env < h + 1 \<longrightarrow> fst (app env isIP stripe now req st) = (tooManyRequests, []))
     \<and> (h + 1 \<le> rateLimit env \<longrightarrow> status (fst (fst (app env isIP stripe now req st))) \<noteq> 429)"
proof -
  from assms(1) have r: "underApi req" "toUpperCase (reqMethod req) \<noteq> ''OPTIONS''"
    "jsonError req = None" "authMiddleware env req = None"
    by (simp_all add: reachesLimiter_def)
  show ?thesis
    using assms(2-) r(4) routes_status[of env stripe req "snd st"]
    unfolding app_under_api[OF r(1,2,3)]
    by (auto simp: limiter_def increment_def idempotency_status split: option.splits prod.splits)
qed

text \<open>The same request when \<open>k\<close> has no open window: it opens one.\<close>

lemma app_opens_window:
  assumes "reachesLimiter env req" "getClientIp isIP req = k"
    and "case fst st k of None \<Rightarrow> True | Some (h, reset) \<Rightarrow> reset \<le> now"
  shows "fst (snd (app env isIP stripe now req st)) k = Some (1, now + 60000)
     \<and> (rateLimit env < 1 \<longrightarrow> fst (app env isIP stripe now req st) = (tooManyRequests, []))
     \<and> (1 \<le> rateLimit env \<longrightarrow> status (fst (fst (app env isIP stripe now req st))) \<noteq> 429)"
proof -
  from assms(1) have r: "underApi req" "toUpperCase (reqMethod req) \<noteq> ''OPTIONS''"
    "jsonError req = None" "authMiddleware env req = None"
    by (simp_all add: reachesLimiter_def)
  show ?thesis
    using assms(2-) r(4) routes_status[of env stripe req "snd st"]
    unfolding app_under_api[OF r(1,2,3)]
    by (auto simp: limiter_def increment_def idempotency_status split: option.splits prod.splits)
qed

text \<open>Any other request leaves the count of \<open>k\<close> as it is.\<close>

lemma app_not_counted:
  assumes "\<not> (reachesLimiter env req \<and> getClientIp isIP req = k)"
  shows "fst (snd (app env isIP stripe now req st)) k = fst st k"
proof (cases "reachesLimiter env req")
  case True
  then have r: "underApi req" "toUpperCase (reqMethod req) \<noteq> ''OPTIONS''"
    "jsonError req = None" "authMiddleware env req = None"
    by (simp_all add: reachesLimiter_def)
  from True assms have k: "getClientIp isIP req \<noteq> k" by simp
  show ?thesis
    using k r(4)
    unfolding app_under_api[OF r(1,2,3)]
    by (auto simp: limiter_def increment_def split: option.splits prod.splits)
next
  case False
  then show ?thesis
    by (auto simp: app_def Let_def reachesLimiter_def cors_def expressJson_def
        split: option.splits prod.splits)
qed

lemma countedBefore_Suc:
  "countedBefore env isIP k (a # reqs) (Suc i) =
     (if countedFor env isIP k a then 1 else 0) + countedBefore env isIP k reqs i"
  by (simp add: countedBefore_def)

text \<open>
  In a sequence whose requests counted for \<open>k\<close> all fall into the open window of \<open>k\<close>, the
  request at position \<open>i\<close>, if counted for \<open>k\<close>, is the one with the number
  \<open>h + countedBefore + 1\<close> in that window, whatever other requests come in between.
\<close>

lemma serve_in_window:
  assumes "\<forall>tr \<in> set reqs. countedFor env isIP k tr \<longrightarrow> fst tr < reset"
    and "fst st k = Some (h, reset)" and "i < length reqs"
    and "countedFor env isIP k (reqs ! i)"
  shows "(rateLimit env < h + countedBefore env isIP k reqs i + 1 \<longrightarrow>
            serve env isIP stripe reqs st ! i = (tooManyRequests, []))
     \<and> (h + countedBefore env isIP k reqs i + 1 \<le> rateLimit env \<longrightarrow>
            status (fst (serve env isIP stripe reqs st ! i)) \<noteq> 429)"
  using assms
proof (induction reqs arbitrary: st h i)
  case Nil
  then show ?case by simp
next
  case (Cons a reqs)
  obtain t r where a: "a = (t, r)" by (cases a)
  obtain out st' where o: "app env isIP stripe t r st = (out, st')"
    by (cases "app env isIP stripe t r st")
  show ?case
  proof (cases i)
    case 0
    with Cons.prems(4) a have c: "reachesLimiter env r" "getClientIp isIP r = k"
      by (simp_all add: countedFor_def)
    from Cons.prems(1) a c have "t < reset" by (auto simp: countedFor_def)
    from app_in_window[OF c Cons.prems(2) this, of stripe] show ?thesis
      using 0 a o by (simp add: countedBefore_def)
  next
    case (Suc j)
    have rest: "\<forall>tr \<in> set reqs. countedFor env isIP k tr \<longrightarrow> fst tr < reset"
      using Cons.prems(1) by simp
    have j: "j < length reqs" using Cons.prems(3) Suc by simp
    have cj: "countedFor env isIP k (reqs ! j)" using Cons.prems(4) Suc by simp
    show ?thesis
    proof (cases "countedFor env isIP k a")
      case True
      then have c: "reachesLimiter env r" "getClientIp isIP r = k"
        using a by (simp_all add: countedFor_def)
      from Cons.prems(1) a True have "t < reset" by auto
      from app_in_window[OF c Cons.prems(2) this, of stripe]
      have "fst st' k = Some (h + 1, reset)" using o by simp
      from Cons.IH[OF rest this j cj] show ?thesis
        using a o Suc True by (simp add: countedBefore_Suc)
    next
      case False
      then have "\<not> (reachesLimiter env r \<and> getClientIp isIP r = k)"
        using a by (simp add: countedFor_def)
      from app_not_counted[OF this, of stripe t st]
      have "fst st' k = Some (h, reset)" using o Cons.prems(2) by simp
      from Cons.IH[OF rest this j cj] show ?thesis
        using a o Suc False by (simp add: countedBefore_Suc)
    qed
  qed
qed

section \<open>The client IP extractor on the documented inputs\<close>

lemma getClientIp_forwarded: "getClientIp sampleIsIP keyedRequest = ''203.0.113.7''"
  by code_simp

lemma getClientIp_mapped:
  "getClientIp sampleIsIP (bareRequest\<lparr>headers := [''x-forwarded-for'' \<mapsto> ''::ffff:203.0.113.7'']\<rparr>)
     = ''203.0.113.7''"
  by code_simp

lemma getClientIp_socket:
  "getClientIp sampleIsIP (garbageRequest\<lparr>remoteAddress := Some ''::ffff:10.0.0.1''\<rparr>) = ''10.0.0.1''"
  by code_simp

section \<open>Authentication\<close>

text \<open>
  C1, as amended. When at least one secret is configured, every request to a path under
  \<open>/api\<close> whose presented value (the \<open>x-api-key\<close> header, else the \<open>x-device-key\<close> header)
  is missing, empty, or neither the single secret nor one of the set, makes no processor
  call and leaves the state unchanged. It is answered with 401 ``Unauthorized'', unless
  \<open>cors()\<close> or \<open>express.json()\<close>, which are mounted before the key check, answer it: a
  preflight (method \<open>OPTIONS\<close>) gets 204, a request whose body the parser refuses gets the
  status of the parser's error.
\<close>

theorem unauthorized_when_configured:
  assumes "underApi req" and "SINGLE_API_KEY env \<noteq> [] \<or> MULTI_KEYS env \<noteq> []"
    and "presentedKey req = None \<or>
         (\<exists>s. presentedKey req = Some s \<and>
              (s = [] \<or> (s \<noteq> SINGLE_API_KEY env \<and> s \<notin> set (MULTI_KEYS env))))"
  shows "app env isIP stripe now req st =
     (((case cors req of
          Some res \<Rightarrow> res
        | None \<Rightarrow> (case expressJson req of
                     Some res \<Rightarrow> res
                   | None \<Rightarrow> errorResponse 401 ''Unauthorized'')), []), st)"
proof -
  have "\<not> hasValidKey env (presentedKey req)"
    using assms(3) by (auto simp: hasValidKey_def)
  then have "authMiddleware env req = Some (errorResponse 401 ''Unauthorized'')"
    using assms(2) by (auto simp: authMiddleware_def)
  then show ?thesis
    using assms(1) by (simp add: app_def Let_def split: option.splits)
qed

theorem unauthorized_when_configured_witness:
  "underApi wrongKeyRequest \<and> SINGLE_API_KEY testEnv = ''s3cret''
   \<and> presentedKey wrongKeyRequest = Some ''guess''
   \<and> cors wrongKeyRequest = None \<and> expressJson wrongKeyRequest = None
   \<and> app testEnv sampleIsIP countingStripe 0 wrongKeyRequest freshServer
       = ((errorResponse 401 ''Unauthorized'', []), freshServer)"
proof -
  have a: "underApi wrongKeyRequest" by code_simp
  have b: "SINGLE_API_KEY testEnv = ''s3cret''" by code_simp
  have c: "presentedKey wrongKeyRequest = Some ''guess''" by code_simp
  have d: "MULTI_KEYS testEnv = []" by code_simp
  have e: "cors wrongKeyRequest = None" by code_simp
  have f: "expressJson wrongKeyRequest = None" by code_simp
  have h2: "SINGLE_API_KEY testEnv \<noteq> [] \<or> MULTI_KEYS testEnv \<noteq> []" by (simp add: b)
  have h3: "presentedKey wrongKeyRequest = None \<or>
         (\<exists>s. presentedKey wrongKeyRequest = Some s \<and>
              (s = [] \<or> (s \<noteq> SINGLE_API_KEY testEnv \<and> s \<notin> set (MULTI_KEYS testEnv))))"
    by (simp add: b c d)
  have "app testEnv sampleIsIP countingStripe 0 wrongKeyRequest freshServer
       = ((errorResponse 401 ''Unauthorized'', []), freshServer)"
    using unauthorized_when_configured [OF a h2 h3, of sampleIsIP countingStripe 0 freshServer]
    by (simp add: e f)
  with a b c e f show ?thesis by blast
qed

text \<open>
  C1 as stated fails: with no secret configured, a request to \<open>/api/payments\<close> that
  presents no credential is answered with 500, not 401.
\<close>

theorem unauthorized_counterexample:
  "underApi bareRequest \<and> presentedKey bareRequest = None
   \<and> status (fst (fst (app unconfigured sampleIsIP countingStripe 0 bareRequest freshServer))) = 500"
  by code_simp

text \<open>
  C2, as amended. If the single secret is empty and the set of secrets is empty, no
  request to a path under \<open>/api\<close> makes a processor call, whatever credential it
  presents, and the state is unchanged. The request is answered with 500, unless
  \<open>cors()\<close> or \<open>express.json()\<close>, which are mounted before the key check, answer it: a
  preflight (method \<open>OPTIONS\<close>) gets 204, a request whose body the parser refuses gets the
  status of the parser's error.
\<close>

theorem unconfigured_rejects_all:
  assumes "SINGLE_API_KEY env = []" and "MULTI_KEYS env = []" and "underApi req"
  shows "app env isIP stripe now req st =
     (((case cors req of
          Some res \<Rightarrow> res
        | None \<Rightarrow> (case expressJson req of
                     Some res \<Rightarrow> res
                   | None \<Rightarrow> errorResponse 500
                       ''Server not configured: missing POS_BACKEND_KEY or POS_BACKEND_KEYS'')),
       []), st)"
  using assms by (simp add: app_def Let_def authMiddleware_def split: option.splits)

theorem unconfigured_rejects_all_witness:
  "SINGLE_API_KEY unconfigured = [] \<and> MULTI_KEYS unconfigured = [] \<and> underApi keyedRequest
   \<and> cors keyedRequest = None \<and> expressJson keyedRequest = None
   \<and> app unconfigured sampleIsIP countingStripe 0 keyedRequest freshServer =
    ((errorResponse 500 ''Server not configured: missing POS_BACKEND_KEY or POS_BACKEND_KEYS'',
      []), freshServer)"
proof -
  have a: "SINGLE_API_KEY unconfigured = []" by code_simp
  have b: "MULTI_KEYS unconfigured = []" by code_simp
  have c: "underApi keyedRequest" by code_simp
  have e: "cors keyedRequest = None" by code_simp
  have f: "expressJson keyedRequest = None" by code_simp
  have "app unconfigured sampleIsIP countingStripe 0 keyedRequest freshServer =
    ((errorResponse 500 ''Server not configured: missing POS_BACKEND_KEY or POS_BACKEND_KEYS'',
      []), freshServer)"
    using unconfigured_rejects_all [OF a b c, of sampleIsIP countingStripe 0 freshServer]
    by (simp add: e f)
  with a b c e f show ?thesis by blast
qed

text \<open>
  C2 as stated fails: with no secret configured, a preflight to \<open>/api/payments\<close> is
  answered with 204 by \<open>cors()\<close>, not with 500.
\<close>

theorem unconfigured_counterexample:
  "SINGLE_API_KEY unconfigured = [] \<and> MULTI_KEYS unconfigured = [] \<and> underApi preflightRequest
   \<and> status (fst (fst (app unconfigured sampleIsIP countingStripe 0 preflightRequest freshServer)))
       = 204"
  by code_simp

section \<open>Creating a payment intent\<close>

lemma callToString_truthy:
  "truthy v \<Longrightarrow>
     callToString v = (case toStringJS v of None \<Rightarrow> Inl (if (\<exists>ps. v = JObj ps) then notAFunction else cannotConvert)
                        | Some s \<Rightarrow> Inr s)"
  by (cases v) (auto simp: callToString_def templateString_def split: option.splits)

lemma truthy_jsOr_POS: "truthy (jsOr v (JStr ''POS''))"
  by (simp add: jsOr_def)

lemma computedDescription_converts:
  assumes "toStringJS (jsOr category (JStr ''POS'')) = Some c"
  shows "\<exists>d. computedDescription description category = Inr d"
proof (cases "truthy category")
  case True
  then have "jsCoalesce category (JStr ''Unspecified'') = category"
    by (cases category) (auto simp: jsCoalesce_def nullish_def)
  then show ?thesis
    using assms True by (simp add: computedDescription_def templateString_def jsOr_def)
next
  case False
  then show ?thesis
    by (cases category)
       (auto simp: computedDescription_def templateString_def jsCoalesce_def nullish_def)
qed

lemma paymentMetadata_converts:
  "paymentMetadata art dk =
     (case toStringJS art of
        None \<Rightarrow> Inl cannotConvert
      | Some s \<Rightarrow> Inr ((if nullish art then [] else [(''art_number'', s)])
                       @ [(''device_key'', strOrElse dk ''unknown'')]))"
  by (cases art) (auto simp: paymentMetadata_def templateString_def nullish_def split: option.splits)

lemma createPayment_suffixes:
  "sentSuffixes (fst (snd (createPayment stripe req p))) =
     (if truthy (bodyProp req ''amount'') \<and> truthy (bodyProp req ''currency'')
         \<and> toStringJS (bodyProp req ''art_number'') \<noteq> None
      then (case categoryText req of None \<Rightarrow> [] | Some c \<Rightarrow> [suffixByKeyword c]) else [])"
proof (cases "truthy (bodyProp req ''amount'') \<and> truthy (bodyProp req ''currency'')")
  case False
  then show ?thesis by (auto simp: createPayment_def Let_def)
next
  case valid: True
  let ?v = "jsOr (bodyProp req ''category'') (JStr ''POS'')"
  show ?thesis
  proof (cases "toStringJS ?v")
    case None
    then have "\<exists>m. callToString ?v = Inl m"
      by (simp add: callToString_truthy[OF truthy_jsOr_POS])
    then show ?thesis
      using valid None
      by (auto simp: createPayment_def Let_def categoryText_def split: sum.splits)
  next
    case (Some c)
    then have t: "callToString ?v = Inr c"
      by (simp add: callToString_truthy[OF truthy_jsOr_POS])
    from computedDescription_converts[OF Some] obtain d where
      d: "computedDescription (bodyProp req ''description'') (bodyProp req ''category'') = Inr d"
      by blast
    show ?thesis
      using valid Some t d
      by (auto simp: createPayment_def Let_def categoryText_def paymentMetadata_converts
          statementSuffix_byKeyword split: option.splits prod.splits sum.splits)
  qed
qed

text \<open>
  C3, as amended. The handler that creates a payment intent sends a statement-descriptor
  suffix to the processor exactly when amount and currency are truthy and the category
  and the art number convert to a string (an object with a property \<open>toString\<close> of its own
  does not). The suffix sent is chosen from the
  text of the category (\<open>POS\<close> for a missing or falsy category) by the first keyword, in the
  order ``concession'', ``merch'', ``art'', that the text contains up to the case of
  letters: ``OHP CONCESSIONS'', ``OHP MERCH'', ``OHP ART'', and ``OHP POS'' when it
  contains none of them, as for a missing category. Every suffix sent is at most 22
  characters long.
\<close>

theorem suffix_by_first_keyword:
  "sentSuffixes (fst (snd (createPayment stripe req p))) =
     (if truthy (bodyProp req ''amount'') \<and> truthy (bodyProp req ''currency'')
         \<and> toStringJS (bodyProp req ''art_number'') \<noteq> None
      then (case categoryText req of None \<Rightarrow> [] | Some c \<Rightarrow> [suffixByKeyword c]) else [])
   \<and> list_all (\<lambda>s. length s \<le> 22) (sentSuffixes (fst (snd (createPayment stripe req p))))
   \<and> (body req ''category'' = None \<longrightarrow> categoryText req = Some ''POS'')
   \<and> (c \<noteq> [] \<and> body req ''category'' = Some (JStr c) \<longrightarrow> categoryText req = Some c)
   \<and> suffixByKeyword ''POS'' = ''OHP POS''"
proof -
  note s = createPayment_suffixes[of stripe req p]
  have l: "list_all (\<lambda>s. length s \<le> 22) (sentSuffixes (fst (snd (createPayment stripe req p))))"
    unfolding s by (simp add: suffixByKeyword_length split: option.splits)
  have m: "body req ''category'' = None \<longrightarrow> categoryText req = Some ''POS''"
    by (simp add: categoryText_def bodyProp_def jsOr_def)
  have t: "c \<noteq> [] \<and> body req ''category'' = Some (JStr c) \<longrightarrow> categoryText req = Some c"
    by (simp add: categoryText_def bodyProp_def jsOr_def)
  from s l m t suffixByKeyword_POS show ?thesis by blast
qed

theorem suffix_by_first_keyword_witness:
  "body (paymentRequest (JStr ''Art Merch'')) ''category'' = Some (JStr ''Art Merch'')
   \<and> sentSuffixes (fst (snd (createPayment countingStripe (paymentRequest (JStr ''Art Merch'')) 0)))
        = [''OHP MERCH'']
   \<and> body noCategoryRequest ''category'' = None
   \<and> sentSuffixes (fst (snd (createPayment countingStripe noCategoryRequest 0))) = [''OHP POS'']
   \<and> toStringJS (bodyProp objectArtRequest ''art_number'') = None
   \<and> sentSuffixes (fst (snd (createPayment countingStripe objectArtRequest 0))) = []"
proof -
  let ?r = "paymentRequest (JStr ''Art Merch'')"
  have a: "truthy (bodyProp ?r ''amount'')" "truthy (bodyProp ?r ''currency'')"
    "toStringJS (bodyProp ?r ''art_number'') = Some ''undefined''"
    "body ?r ''category'' = Some (JStr ''Art Merch'')"
    by code_simp+
  have e: "suffixByKeyword ''Art Merch'' = ''OHP MERCH''"
    by (simp add: suffixByKeyword_def containsCI_includes lower_keywords lower_simps startsWith_def)
  have "''Art Merch'' \<noteq> [] \<and> body ?r ''category'' = Some (JStr ''Art Merch'')"
    using a(4) by simp
  with suffix_by_first_keyword [of countingStripe ?r 0 "''Art Merch''"]
  have 1: "sentSuffixes (fst (snd (createPayment countingStripe ?r 0))) = [''OHP MERCH'']"
    using a e by simp
  let ?u = "noCategoryRequest"
  have u: "truthy (bodyProp ?u ''amount'')" "truthy (bodyProp ?u ''currency'')"
    "toStringJS (bodyProp ?u ''art_number'') = Some ''undefined''"
    "body ?u ''category'' = None"
    by code_simp+
  from suffix_by_first_keyword [of countingStripe ?u 0 "[]"]
  have 3: "sentSuffixes (fst (snd (createPayment countingStripe ?u 0))) = [''OHP POS'']"
    using u by simp
  have o: "toStringJS (bodyProp objectArtRequest ''art_number'') = None" by code_simp
  from suffix_by_first_keyword [of countingStripe objectArtRequest 0 "[]"]
  have 4: "sentSuffixes (fst (snd (createPayment countingStripe objectArtRequest 0))) = []"
    using o by simp
  from a(4) u(4) o 1 3 4 show ?thesis by blast
qed

text \<open>
  C3 as stated fails: the category ``Art Merch'' contains ``art'', yet the suffix sent is
  ``OHP MERCH'', because ``merch'' is looked for first.
\<close>

theorem suffix_art_counterexample:
  "containsCI ''Art Merch'' ''art''
   \<and> sentSuffixes (fst (snd (createPayment countingStripe (paymentRequest (JStr ''Art Merch'')) 0)))
       = [''OHP MERCH'']"
proof -
  have "containsCI ''Art Merch'' ''art''"
    by (simp add: containsCI_includes lower_keywords lower_simps startsWith_def)
  moreover have
    "sentSuffixes (fst (snd (createPayment countingStripe (paymentRequest (JStr ''Art Merch'')) 0)))
       = [''OHP MERCH'']"
    by code_simp
  ultimately show ?thesis by simp
qed

text \<open>
  C6. A request to create a payment intent whose body has no amount, or no currency, is
  answered with 400 ``Amount and currency are required.''; no processor call is made and
  the processor is left as it was.
\<close>

theorem missing_amount_or_currency:
  assumes "body req ''amount'' = None \<or> body req ''currency'' = None"
  shows "createPayment stripe req p =
           (errorResponse 400 ''Amount and currency are required.'', [], p)"
  using assms by (auto simp: createPayment_def bodyProp_def)

theorem missing_amount_or_currency_witness:
  "body keyedRequest ''amount'' = None
   \<and> createPayment countingStripe keyedRequest 0 =
        (errorResponse 400 ''Amount and currency are required.'', [], 0)"
proof -
  have a: "body keyedRequest ''amount'' = None" by code_simp
  show ?thesis using a missing_amount_or_currency [OF disjI1 [OF a], of countingStripe 0] by simp
qed

text \<open>
  C10. The check is on falsiness, not on presence: a request whose amount is present and
  equal to 0, or whose currency is present and the empty string, is answered with the
  same 400; no processor call is made.
\<close>

theorem falsy_amount_or_currency:
  assumes "body req ''amount'' = Some (JNum 0) \<or> body req ''currency'' = Some (JStr [])"
  shows "createPayment stripe req p =
           (errorResponse 400 ''Amount and currency are required.'', [], p)"
  using assms by (auto simp: createPayment_def bodyProp_def)

theorem falsy_amount_or_currency_witness:
  "body zeroAmountRequest ''amount'' = Some (JNum 0)
   \<and> body zeroAmountRequest ''currency'' = Some (JStr ''usd'')
   \<and> createPayment countingStripe zeroAmountRequest 0 =
        (errorResponse 400 ''Amount and currency are required.'', [], 0)"
proof -
  have a: "body zeroAmountRequest ''amount'' = Some (JNum 0)" by code_simp
  have b: "body zeroAmountRequest ''currency'' = Some (JStr ''usd'')" by code_simp
  show ?thesis
    using a b falsy_amount_or_currency [OF disjI1 [OF a], of countingStripe 0] by simp
qed

section \<open>Processing on a reader\<close>

text \<open>
  C7. In production mode with no reader identifier configured (the variable unset or
  empty), the handler of \<open>/api/terminal/charge\<close> answers with 400 ``Missing
  STRIPE_TERMINAL_ID_PROD for production mode'' and makes no processor call; and no
  request to the server makes a call that provisions a reader or processes an intent on
  one.
\<close>

theorem prod_without_reader:
  assumes "STRIPE_ENV env = Some ''prod''"
    and "STRIPE_TERMINAL_ID_PROD env = None \<or> STRIPE_TERMINAL_ID_PROD env = Some []"
  shows "terminalCharge env stripe req p =
           (errorResponse 400 ''Missing STRIPE_TERMINAL_ID_PROD for production mode'', [], p)
         \<and> \<not> list_ex readerCall (snd (fst (app env isIP stripe now req st)))"
proof -
  have t: "\<And>p. terminalCharge env stripe req p =
           (errorResponse 400 ''Missing STRIPE_TERMINAL_ID_PROD for production mode'', [], p)"
    using assms by (rule terminalCharge_unconfigured)
  have "\<not> readerCall c" if "c \<in> set (snd (fst (app env isIP stripe now req st)))" for c
    using that app_calls_routes[of env isIP stripe now req st] routes_calls[OF t, of c "snd st"]
    by auto
  then show ?thesis using t by (auto simp: list_ex_iff)
qed

theorem prod_without_reader_witness:
  "STRIPE_ENV prodEnv = Some ''prod'' \<and> STRIPE_TERMINAL_ID_PROD prodEnv = None
   \<and> authMiddleware prodEnv chargeRequest = None \<and> idempotencyMiddleware chargeRequest = None
   \<and> terminalCharge prodEnv countingStripe chargeRequest 0 =
        (errorResponse 400 ''Missing STRIPE_TERMINAL_ID_PROD for production mode'', [], 0)
   \<and> \<not> list_ex readerCall
           (snd (fst (app prodEnv sampleIsIP countingStripe 0 chargeRequest (Map.empty, 0))))"
proof -
  have a: "STRIPE_ENV prodEnv = Some ''prod''" by code_simp
  have b: "STRIPE_TERMINAL_ID_PROD prodEnv = None" by code_simp
  have c: "authMiddleware prodEnv chargeRequest = None" by code_simp
  have d: "idempotencyMiddleware chargeRequest = None" by code_simp
  show ?thesis
    using a b c d
      prod_without_reader [OF a disjI1 [OF b], of countingStripe chargeRequest 0 sampleIsIP 0
        "(Map.empty, 0)"]
    by simp
qed

section \<open>Retrieving a payment intent\<close>

text \<open>
  C4. When the processor returns the intent, the \<open>effective_status\<close> of the answer is
  ``succeeded'' if the status of the intent is ``succeeded'' or its latest charge has the
  status ``succeeded'', and is the status of the intent otherwise. So it is ``succeeded''
  exactly when the intent or its latest charge has succeeded.
\<close>

theorem effective_status_succeeded:
  assumes "paymentIntents_retrieve stripe ident [''latest_charge''] p = (Inr i, p')"
  shows "jsField (json (fst (getPaymentIntent stripe ident p))) ''effective_status'' =
           JStr (if in_status i = ''succeeded''
                    \<or> (\<exists>lc. latest_charge i = Some lc \<and> ch_status lc = Some ''succeeded'')
                 then ''succeeded'' else in_status i)"
  using assms
  by (auto simp: getPaymentIntent_def okResponse_def intentSummary_def jsField_def Let_def
      effectiveStatus_def chargeStatus_def split: option.splits)

theorem effective_status_succeeded_witness:
  "paymentIntents_retrieve countingStripe ''pi_1'' [''latest_charge''] 0 = (Inr laggingIntent, 1)
   \<and> in_status laggingIntent = ''processing''
   \<and> jsField (json (fst (getPaymentIntent countingStripe ''pi_1'' 0))) ''effective_status'' =
        JStr ''succeeded''"
proof -
  have a: "paymentIntents_retrieve countingStripe ''pi_1'' [''latest_charge''] 0
             = (Inr laggingIntent, 1)"
    by (simp add: countingStripe_def)
  have b: "in_status laggingIntent = ''processing''" by (simp add: laggingIntent_def)
  have c: "\<exists>lc. latest_charge laggingIntent = Some lc \<and> ch_status lc = Some ''succeeded''"
    by (simp add: laggingIntent_def)
  show ?thesis using a b c effective_status_succeeded [OF a] by simp
qed

section \<open>The client identity\<close>

text \<open>
  C8, as amended. The extractor is total and, since \<open>isIP\<close> rejects the empty string,
  never returns the empty string. What the source computes with indices is the cleaning
  of the specification: of the first field of the forwarding header (or of \<open>req.ip\<close>), and
  of the socket address. The extractor returns the cleaned token if that is an IP
  address, else the cleaned socket address if that is one; when neither is an IP address
  it returns the cleaned token itself if that is non-empty, and ``unknown'' only if it is
  empty.
\<close>

theorem client_ip_fallback:
  assumes "isIP [] = 0"
  shows "cleanToken req = cleanedToken req \<and> cleanRemote req = cleanedSocket req
     \<and> getClientIp isIP req \<noteq> []
     \<and> getClientIp isIP req =
         (if isIP (cleanedToken req) \<noteq> 0 then cleanedToken req
          else if isIP (cleanedSocket req) \<noteq> 0 then cleanedSocket req
          else if cleanedToken req \<noteq> [] then cleanedToken req
          else ''unknown'')"
proof -
  have t: "cleanToken req = cleanedToken req" by (rule cleanToken_spec)
  have r: "cleanRemote req = cleanedSocket req" by (rule cleanRemote_spec)
  have nonempty: "isIP (cleanedToken req) \<noteq> 0 \<Longrightarrow> cleanedToken req \<noteq> []"
    using assms by auto
  have socket: "isIP (cleanedSocket req) \<noteq> 0 \<Longrightarrow> cleanedSocket req \<noteq> []"
    using assms by auto
  have g: "getClientIp isIP req =
         (if isIP (cleanedToken req) \<noteq> 0 then cleanedToken req
          else if isIP (cleanedSocket req) \<noteq> 0 then cleanedSocket req
          else if cleanedToken req \<noteq> [] then cleanedToken req
          else ''unknown'')"
    using nonempty by (auto simp: getClientIp_def Let_def t r)
  have "getClientIp isIP req \<noteq> []"
    unfolding g using nonempty socket by auto
  with t r g show ?thesis by blast
qed

theorem client_ip_fallback_witness:
  "sampleIsIP [] = 0
   \<and> cleanedToken garbageRequest = ''garbage'' \<and> sampleIsIP ''garbage'' = 0
   \<and> cleanedSocket garbageRequest = [] \<and> getClientIp sampleIsIP garbageRequest = ''garbage''
   \<and> cleanedToken bareRequest = [] \<and> cleanedSocket bareRequest = []
   \<and> getClientIp sampleIsIP bareRequest = ''unknown''"
proof -
  have a: "sampleIsIP [] = 0" by code_simp
  have g: "cleanedToken garbageRequest = ''garbage''" "sampleIsIP ''garbage'' = 0"
    "cleanedSocket garbageRequest = []"
    by code_simp+
  have b: "cleanedToken bareRequest = []" "cleanedSocket bareRequest = []"
    by code_simp+
  have 1: "getClientIp sampleIsIP garbageRequest = ''garbage''"
    using client_ip_fallback [of sampleIsIP garbageRequest, OF a] by (simp add: g a)
  have 2: "getClientIp sampleIsIP bareRequest = ''unknown''"
    using client_ip_fallback [of sampleIsIP bareRequest, OF a] by (simp add: b a)
  from a g b 1 2 show ?thesis by blast
qed

text \<open>
  C8 as stated fails: for the forwarding header ``garbage'' and no socket address,
  neither cleaned value is an IP address, and the extractor returns ``garbage''.
\<close>

theorem client_ip_counterexample:
  "sampleIsIP (cleanToken garbageRequest) = 0 \<and> sampleIsIP (cleanRemote garbageRequest) = 0
   \<and> getClientIp sampleIsIP garbageRequest = ''garbage''"
  by code_simp

section \<open>The idempotency header\<close>

text \<open>
  C5, as amended. For every \<open>POST\<close> request to a path under \<open>/api\<close> that lacks the
  \<open>Idempotency-Key\<close> header (or has it empty), no processor call is made. The answer is
  that of \<open>express.json()\<close> if it refuses the body, else that of the key check if the key
  check answers, else that of the rate limiter if the limiter answers, and else 400
  ``Missing Idempotency-Key header''. The check looks at the presence of the header only:
  with any non-empty value \<open>v\<close> in the header it passes the request on.
\<close>

theorem missing_idempotency_key:
  assumes "underApi req" and "toUpperCase (reqMethod req) = ''POST''"
    and "header req ''Idempotency-Key'' = None \<or> header req ''Idempotency-Key'' = Some []"
    and "v \<noteq> []"
  shows "snd (fst (app env isIP stripe now req st)) = []
     \<and> fst (fst (app env isIP stripe now req st)) =
         (case expressJson req of
            Some res \<Rightarrow> res
          | None \<Rightarrow>
         (case authMiddleware env req of
            Some res \<Rightarrow> res
          | None \<Rightarrow> (case fst (limiter env isIP now req (fst st)) of
                       Some res \<Rightarrow> res
                     | None \<Rightarrow> errorResponse 400 ''Missing Idempotency-Key header'')))
     \<and> idempotencyMiddleware (req\<lparr>headers := (headers req)(''idempotency-key'' \<mapsto> v)\<rparr>) = None"
proof -
  have i: "idempotencyMiddleware req = Some (errorResponse 400 ''Missing Idempotency-Key header'')"
    using assms(2,3) by (auto simp: idempotencyMiddleware_def strTruthy_def)
  have o: "cors req = None" using assms(2) by (simp add: cors_def)
  have p: "idempotencyMiddleware (req\<lparr>headers := (headers req)(''idempotency-key'' \<mapsto> v)\<rparr>) = None"
    using assms(4)
    by (cases v) (auto simp: idempotencyMiddleware_def strTruthy_def header_def lower_idempotency_key)
  have c: "snd (fst (app env isIP stripe now req st)) = []"
    using assms(1) i o by (auto simp: app_def Let_def split: option.splits prod.splits)
  have r: "fst (fst (app env isIP stripe now req st)) =
         (case expressJson req of
            Some res \<Rightarrow> res
          | None \<Rightarrow>
         (case authMiddleware env req of
            Some res \<Rightarrow> res
          | None \<Rightarrow> (case fst (limiter env isIP now req (fst st)) of
                       Some res \<Rightarrow> res
                     | None \<Rightarrow> errorResponse 400 ''Missing Idempotency-Key header'')))"
    using assms(1) i o by (auto simp: app_def Let_def split: option.splits prod.splits)
  from c r p show ?thesis by simp
qed

theorem missing_idempotency_key_witness:
  "underApi keyedRequest \<and> toUpperCase (reqMethod keyedRequest) = ''POST''
   \<and> header keyedRequest ''Idempotency-Key'' = None
   \<and> expressJson keyedRequest = None
   \<and> authMiddleware testEnv keyedRequest = None
   \<and> fst (limiter testEnv sampleIsIP 0 keyedRequest Map.empty) = None
   \<and> fst (app testEnv sampleIsIP countingStripe 0 keyedRequest (Map.empty, 0)) =
        (errorResponse 400 ''Missing Idempotency-Key header'', [])
   \<and> idempotencyMiddleware (keyedRequest\<lparr>headers := (headers keyedRequest)(''idempotency-key'' \<mapsto> ''a1'')\<rparr>)
        = None"
proof -
  have a: "underApi keyedRequest" by code_simp
  have b: "toUpperCase (reqMethod keyedRequest) = ''POST''" by code_simp
  have c: "header keyedRequest ''Idempotency-Key'' = None" by code_simp
  have j: "expressJson keyedRequest = None" by code_simp
  have d: "authMiddleware testEnv keyedRequest = None" by code_simp
  have n: "rateLimit testEnv = 2" by code_simp
  have e: "fst (limiter testEnv sampleIsIP 0 keyedRequest Map.empty) = None"
    by (simp add: limiter_def increment_def n)
  have v: "''a1'' \<noteq> []" by simp
  note t = missing_idempotency_key [OF a b disjI1 [OF c] v, of testEnv sampleIsIP countingStripe 0
      "(Map.empty, 0)"]
  have "fst (app testEnv sampleIsIP countingStripe 0 keyedRequest (Map.empty, 0)) =
        (errorResponse 400 ''Missing Idempotency-Key header'', [])"
    using t j d e by (simp add: prod_eq_iff)
  with a b c j d e t show ?thesis by blast
qed

text \<open>
  C5 as stated fails: a \<open>POST\<close> to \<open>/api/payments\<close> without the header and without a
  credential is answered with 401 by the key check, which runs first.
\<close>

theorem missing_idempotency_key_counterexample:
  "underApi bareRequest \<and> toUpperCase (reqMethod bareRequest) = ''POST''
   \<and> header bareRequest ''Idempotency-Key'' = None
   \<and> status (fst (fst (app testEnv sampleIsIP countingStripe 0 bareRequest freshServer))) = 401"
  by code_simp

section \<open>The rate limit\<close>

text \<open>
  C9, as amended. Fix a client identity \<open>k\<close> and any sequence of timed requests, of any
  clients, whose first request is counted for \<open>k\<close> (it reaches the limiter, that is it lies
  under \<open>/api\<close>, is no preflight, has an accepted body and passes the key check, and its
  client identity is \<open>k\<close>) at a time \<open>t0\<close> at which \<open>k\<close> has no open window, and whose later
  requests counted for \<open>k\<close> come less than 60 seconds after \<open>t0\<close>. Then a request counted
  for \<open>k\<close> is not answered with 429 if fewer than \<open>limit\<close> requests counted for \<open>k\<close> precede
  it, and it is answered with 429 and makes no processor call otherwise: of the requests
  counted for \<open>k\<close> the first \<open>limit\<close> are not rate-limited and the next one is.
\<close>

theorem rate_limit_window:
  assumes "countedFor env isIP k (t0, r0)"
    and "case fst st k of None \<Rightarrow> True | Some (h, reset) \<Rightarrow> reset \<le> t0"
    and "\<forall>tr \<in> set rest. countedFor env isIP k tr \<longrightarrow> fst tr < t0 + 60000"
    and "i < length ((t0, r0) # rest)"
    and "countedFor env isIP k (((t0, r0) # rest) ! i)"
  shows "(countedBefore env isIP k ((t0, r0) # rest) i < rateLimit env \<longrightarrow>
            status (fst (serve env isIP stripe ((t0, r0) # rest) st ! i)) \<noteq> 429)
     \<and> (rateLimit env \<le> countedBefore env isIP k ((t0, r0) # rest) i \<longrightarrow>
            serve env isIP stripe ((t0, r0) # rest) st ! i = (tooManyRequests, []))"
proof -
  obtain out st' where o: "app env isIP stripe t0 r0 st = (out, st')"
    by (cases "app env isIP stripe t0 r0 st")
  from assms(1) have c: "reachesLimiter env r0" "getClientIp isIP r0 = k"
    by (simp_all add: countedFor_def)
  note first = app_opens_window[OF c assms(2), of stripe]
  show ?thesis
  proof (cases i)
    case 0
    then show ?thesis using first o by (auto simp: countedBefore_def)
  next
    case (Suc j)
    have st': "fst st' k = Some (1, t0 + 60000)" using first o by simp
    have j: "j < length rest" using assms(4) Suc by simp
    have cj: "countedFor env isIP k (rest ! j)" using assms(5) Suc by simp
    from serve_in_window[OF assms(3) st' j cj, of stripe]
    show ?thesis
      using o Suc assms(1) by (auto simp: countedBefore_Suc)
  qed
qed

theorem rate_limit_window_witness:
  "rateLimit testEnv = 2
   \<and> countedFor testEnv sampleIsIP ''203.0.113.7'' (1000, keyedRequest)
   \<and> \<not> countedFor testEnv sampleIsIP ''203.0.113.7'' (1200, otherClientRequest)
   \<and> \<not> countedFor testEnv sampleIsIP ''203.0.113.7'' (1700, bareRequest)
   \<and> \<not> countedFor testEnv sampleIsIP ''203.0.113.7'' (1800, preflightRequest)
   \<and> status (fst (serve testEnv sampleIsIP countingStripe sampleTraffic freshServer ! 0)) \<noteq> 429
   \<and> status (fst (serve testEnv sampleIsIP countingStripe sampleTraffic freshServer ! 2)) \<noteq> 429
   \<and> serve testEnv sampleIsIP countingStripe sampleTraffic freshServer ! 5 = (tooManyRequests, [])"
proof -
  let ?k = "''203.0.113.7''"
  let ?rest = "[(1200, otherClientRequest), (1500, keyedRequest), (1700, bareRequest),
                (1800, preflightRequest), (60999, keyedRequest)] :: (nat \<times> request) list"
  have n: "rateLimit testEnv = 2" by code_simp
  have ck: "reachesLimiter testEnv keyedRequest" by code_simp
  have ik: "getClientIp sampleIsIP keyedRequest = ?k" by code_simp
  have io: "getClientIp sampleIsIP otherClientRequest \<noteq> ?k" by code_simp
  have cb: "\<not> reachesLimiter testEnv bareRequest" by code_simp
  have cp: "\<not> reachesLimiter testEnv preflightRequest" by code_simp
  have c1: "countedFor testEnv sampleIsIP ?k (t, keyedRequest)" for t
    using ck ik by (simp add: countedFor_def)
  have c2: "\<not> countedFor testEnv sampleIsIP ?k (t, otherClientRequest)" for t
    using io by (simp add: countedFor_def)
  have c3: "\<not> countedFor testEnv sampleIsIP ?k (t, bareRequest)" for t
    using cb by (simp add: countedFor_def)
  have c4: "\<not> countedFor testEnv sampleIsIP ?k (t, preflightRequest)" for t
    using cp by (simp add: countedFor_def)
  have tr: "sampleTraffic = (1000, keyedRequest) # ?rest" by (simp add: sampleTraffic_def)
  have fresh: "case fst freshServer ?k of None \<Rightarrow> True | Some (h, reset) \<Rightarrow> reset \<le> 1000"
    by (simp add: freshServer_def)
  have window: "\<forall>tr \<in> set ?rest. countedFor testEnv sampleIsIP ?k tr \<longrightarrow> fst tr < 1000 + 60000"
    by simp
  have b0: "countedBefore testEnv sampleIsIP ?k ((1000, keyedRequest) # ?rest) 0 = 0"
    by (simp add: countedBefore_def)
  have b2: "countedBefore testEnv sampleIsIP ?k ((1000, keyedRequest) # ?rest) 2 = 1"
    by (simp add: countedBefore_def c1 c2)
  have b5: "countedBefore testEnv sampleIsIP ?k ((1000, keyedRequest) # ?rest) 5 = 2"
    by (simp add: countedBefore_def c1 c2 c3 c4)
  have r0: "status (fst (serve testEnv sampleIsIP countingStripe sampleTraffic freshServer ! 0)) \<noteq> 429"
    using rate_limit_window [OF c1 fresh window, of 0 countingStripe] n b0
    by (simp add: tr c1)
  have r2: "status (fst (serve testEnv sampleIsIP countingStripe sampleTraffic freshServer ! 2)) \<noteq> 429"
    using rate_limit_window [OF c1 fresh window, of 2 countingStripe] n b2
    by (simp add: tr c1)
  have r5: "serve testEnv sampleIsIP countingStripe sampleTraffic freshServer ! 5 = (tooManyRequests, [])"
    using rate_limit_window [OF c1 fresh window, of 5 countingStripe] n b5
    by (simp add: tr c1)
  from n c1 c2 c3 c4 r0 r2 r5 show ?thesis by blast
qed

text \<open>
  C9 as stated fails: with the limit 2, the third of three requests of one client within
  two milliseconds, none of them with a credential, is answered with 401 like the other
  two; requests that the key check turns away never reach the limiter.
\<close>

theorem rate_limit_counterexample:
  "rateLimit testEnv = 2
   \<and> map (status \<circ> fst)
        (serve testEnv sampleIsIP countingStripe
           [(0, bareRequest), (1, bareRequest), (2, bareRequest)] freshServer)
       = [401, 401, 401]"
  by code_simp

end
